theory Spec2Isabelle
  imports
    Main
    "HOL-Library.AList"
    "HOL-Library.Char_ord"
    "HOL-Library.List_Lexorder"
    "HOL-Library.Sublist"
begin

section \<open>Python values, exceptions and files\<close>

text \<open>
  Strings are ASCII text (\<^typ>\<open>string\<close>). An exception is its class name and its message,
  the two things \<open>perform_login\<close> and \<open>verify_session\<close> print; the message texts of library
  exceptions are not reproduced. Only exceptions below \<open>Exception\<close> are modelled.
\<close>

datatype exn = Exn (exn_name: string) (exn_msg: string)

text \<open>
  What \<open>json.load\<close> returns and \<open>json.dump\<close> writes. A float is \<open>JFloat m e\<close>, the number
  \<open>m * 2 ^ e\<close>; a dict is an association list in insertion order.
\<close>

datatype json =
    JNull
  | JBool bool
  | JInt int
  | JFloat int int
  | JStr string
  | JArr "json list"
  | JObj "(string \<times> json) list"

text \<open>Python truth value, as \<open>x or []\<close> and \<open>bool(x)\<close> test it.\<close>

fun truthy :: "json \<Rightarrow> bool" where
  "truthy JNull = False"
| "truthy (JBool b) = b"
| "truthy (JInt n) = (n \<noteq> 0)"
| "truthy (JFloat m e) = (m \<noteq> 0)"
| "truthy (JStr s) = (s \<noteq> [])"
| "truthy (JArr xs) = (xs \<noteq> [])"
| "truthy (JObj kv) = (kv \<noteq> [])"

text \<open>\<open>x or y\<close>.\<close>

definition py_or :: "json \<Rightarrow> json \<Rightarrow> json" where
  "py_or x y = (if truthy x then x else y)"

text \<open>\<open>len(x)\<close>: numbers, booleans and \<open>None\<close> have no length.\<close>

fun py_len :: "json \<Rightarrow> exn + nat" where
  "py_len (JArr xs) = Inr (length xs)"
| "py_len (JObj kv) = Inr (length (remdups (map fst kv)))"
| "py_len (JStr s) = Inr (length s)"
| "py_len _ = Inl (Exn ''TypeError'' ''object has no len()'')"

text \<open>\<open>data.get(k, default)\<close>: only a dict has \<open>get\<close>.\<close>

fun dict_get :: "json \<Rightarrow> string \<Rightarrow> json \<Rightarrow> exn + json" where
  "dict_get (JObj kv) k dflt = Inr (case map_of kv k of None \<Rightarrow> dflt | Some v \<Rightarrow> v)"
| "dict_get _ k dflt = Inl (Exn ''AttributeError'' ''object has no attribute get'')"

text \<open>\<open>data[k]\<close> with a string key: \<open>KeyError\<close> on a dict without it, \<open>TypeError\<close> elsewhere.\<close>

fun subscript :: "json \<Rightarrow> string \<Rightarrow> exn + json" where
  "subscript (JObj kv) k =
     (case map_of kv k of None \<Rightarrow> Inl (Exn ''KeyError'' k) | Some v \<Rightarrow> Inr v)"
| "subscript _ k = Inl (Exn ''TypeError'' ''indices must be integers'')"

text \<open>
  The file system. \<open>Sessions n\<close> is the file named \<open>n\<close> in \<open>SESSIONS_DIR\<close>, \<open>Outside p\<close>
  the file at the path \<open>p\<close> elsewhere. A file holds a JSON document or text that
  \<open>json.load\<close> rejects. Only regular files are modelled, on a POSIX file system where the
  process may read and write: every directory named on a path exists, and the path of
  \<open>SESSIONS_DIR\<close> itself is short. A character of a name is one byte. The first binding
  of a path in the list is the file. \<open>exists_file\<close>, \<open>write_file\<close> and \<open>unlink\<close> are the
  state of the file system and its two updates; what the calls of Python (CPython 3.11) do
  with a path that the operating system refuses comes after them.
\<close>

datatype path = Sessions string | Outside string

datatype content = Json json | Unparseable string

type_synonym fs = "(path \<times> content) list"

definition exists_file :: "fs \<Rightarrow> path \<Rightarrow> bool" where
  "exists_file fs p = (map_of fs p \<noteq> None)"

definition write_file :: "path \<Rightarrow> content \<Rightarrow> fs \<Rightarrow> fs" where
  "write_file p c fs = AList.update p c fs"

definition unlink :: "path \<Rightarrow> fs \<Rightarrow> fs" where
  "unlink p fs = AList.delete p fs"

text \<open>
  Paths the operating system refuses. A path with a NUL character never reaches it:
  Python raises \<open>ValueError\<close>. A file name longer than \<open>NAME_MAX\<close> bytes, and a path of
  \<open>PATH_MAX\<close> bytes or more, fail with \<open>OSError\<close> (\<open>ENAMETOOLONG\<close>), whose message is
  given here without the error number and the path that Python adds. The name of a file
  in \<open>SESSIONS_DIR\<close> is one component; a path elsewhere is split at \<open>/\<close>.
\<close>

definition NAME_MAX :: nat where
  "NAME_MAX = 255"

definition PATH_MAX :: nat where
  "PATH_MAX = 4096"

fun components :: "string \<Rightarrow> string list" where
  "components [] = [[]]"
| "components (c # cs) =
     (if c = CHR ''/'' then [] # components cs
      else (case components cs of
              [] \<Rightarrow> [[c]]
            | x # xs \<Rightarrow> (c # x) # xs))"

fun has_nul :: "path \<Rightarrow> bool" where
  "has_nul (Sessions n) = (CHR 0x00 \<in> set n)"
| "has_nul (Outside p) = (CHR 0x00 \<in> set p)"

fun too_long :: "path \<Rightarrow> bool" where
  "too_long (Sessions n) = (NAME_MAX < length n)"
| "too_long (Outside p) = (PATH_MAX \<le> length p \<or> list_ex (\<lambda>c. NAME_MAX < length c) (components p))"

definition null_byte :: exn where
  "null_byte = Exn ''ValueError'' ''embedded null byte''"

definition name_too_long :: exn where
  "name_too_long = Exn ''OSError'' ''File name too long''"

text \<open>
  \<open>Path.exists()\<close>: \<open>os.stat\<close>, with \<open>ValueError\<close> and the errors of a missing file turned
  into \<open>False\<close>; \<open>ENAMETOOLONG\<close> is not among them and is raised.
\<close>

definition path_exists :: "fs \<Rightarrow> path \<Rightarrow> exn + bool" where
  "path_exists fs p =
     (if has_nul p then Inr False
      else if too_long p then Inl name_too_long
      else Inr (exists_file fs p))"

text \<open>\<open>with open(p, "w") as f: json.dump(c, f)\<close>.\<close>

definition open_write :: "path \<Rightarrow> content \<Rightarrow> fs \<Rightarrow> exn + fs" where
  "open_write p c fs =
     (if has_nul p then Inl null_byte
      else if too_long p then Inl name_too_long
      else Inr (write_file p c fs))"

text \<open>\<open>with open(p) as f: json.load(f)\<close>.\<close>

definition json_load_file :: "fs \<Rightarrow> path \<Rightarrow> exn + json" where
  "json_load_file fs p =
     (if has_nul p then Inl null_byte
      else if too_long p then Inl name_too_long
      else
        (case map_of fs p of
           None \<Rightarrow> Inl (Exn ''FileNotFoundError'' ''No such file or directory'')
         | Some (Unparseable t) \<Rightarrow> Inl (Exn ''JSONDecodeError'' ''Expecting value'')
         | Some (Json j) \<Rightarrow> Inr j))"

section \<open>The network location of a URL\<close>

text \<open>
  \<open>urlparse(url).netloc\<close> of the standard library (\<open>urllib.parse.urlsplit\<close>, CPython 3.11.4
  and later), on ASCII text: leading control characters and spaces are stripped, tab, CR
  and LF removed, a scheme is split off, and after \<open>//\<close> the network location runs to the
  first of \<open>/ ? #\<close>. Unmatched square brackets raise \<open>ValueError\<close>. A bracketed host is
  checked by \<open>_check_bracketed_host\<close> (modules \<open>ipaddress\<close> and \<open>re\<close>), which is the
  parameter \<open>cbh\<close> here: \<open>None\<close> when it accepts the host, the exception otherwise.
\<close>

definition lower_char :: "char \<Rightarrow> char" where
  "lower_char c =
     (if CHR ''A'' \<le> c \<and> c \<le> CHR ''Z'' then char_of (of_char c + (32::nat)) else c)"

definition lower :: "string \<Rightarrow> string" where
  "lower s = map lower_char s"

definition is_alpha :: "char \<Rightarrow> bool" where
  "is_alpha c = ((CHR ''a'' \<le> c \<and> c \<le> CHR ''z'') \<or> (CHR ''A'' \<le> c \<and> c \<le> CHR ''Z''))"

definition scheme_char :: "char \<Rightarrow> bool" where
  "scheme_char c =
     (is_alpha c \<or> (CHR ''0'' \<le> c \<and> c \<le> CHR ''9'') \<or> c = CHR ''+'' \<or> c = CHR ''-'' \<or> c = CHR ''.'')"

definition c0_control_or_space :: "char \<Rightarrow> bool" where
  "c0_control_or_space c = (of_char c \<le> (32::nat))"

definition unsafe_byte :: "char \<Rightarrow> bool" where
  "unsafe_byte c = (c = CHR 0x09 \<or> c = CHR 0x0D \<or> c = CHR 0x0A)"

definition clean_url :: "string \<Rightarrow> string" where
  "clean_url url = filter (\<lambda>c. \<not> unsafe_byte c) (dropWhile c0_control_or_space url)"

text \<open>The URL after its scheme and colon, when it starts with one.\<close>

definition drop_scheme :: "string \<Rightarrow> string" where
  "drop_scheme url =
     (let s = takeWhile (\<lambda>c. c \<noteq> CHR '':'') url in
      if CHR '':'' \<in> set url \<and> s \<noteq> [] \<and> is_alpha (hd url) \<and> list_all scheme_char s
      then drop (length s + 1) url
      else url)"

definition netloc_delim :: "char \<Rightarrow> bool" where
  "netloc_delim c = (c = CHR ''/'' \<or> c = CHR ''?'' \<or> c = CHR ''#'')"

definition bracketed_host :: "string \<Rightarrow> string" where
  "bracketed_host netloc =
     takeWhile (\<lambda>c. c \<noteq> CHR '']'') (tl (dropWhile (\<lambda>c. c \<noteq> CHR ''['') netloc))"

definition urlparse_netloc :: "(string \<Rightarrow> exn option) \<Rightarrow> string \<Rightarrow> exn + string" where
  "urlparse_netloc cbh url =
     (let u = drop_scheme (clean_url url) in
      if take 2 u = ''//'' then
        (let netloc = takeWhile (\<lambda>c. \<not> netloc_delim c) (drop 2 u);
             lb = CHR ''['' \<in> set netloc;
             rb = CHR '']'' \<in> set netloc
         in if (lb \<and> \<not> rb) \<or> (rb \<and> \<not> lb) then Inl (Exn ''ValueError'' ''Invalid IPv6 URL'')
            else if lb \<and> rb then
              (case cbh (bracketed_host netloc) of
                 Some e \<Rightarrow> Inl e
               | None \<Rightarrow> Inr netloc)
            else Inr netloc)
      else Inr [])"

section \<open>The session store (session\_store.py)\<close>

text \<open>\<open>host.replace(":", "_").replace("/", "_")\<close>.\<close>

definition replace_char :: "char \<Rightarrow> char \<Rightarrow> string \<Rightarrow> string" where
  "replace_char a b s = map (\<lambda>c. if c = a then b else c) s"

definition safe_name :: "string \<Rightarrow> string" where
  "safe_name host = replace_char CHR ''/'' CHR ''_'' (replace_char CHR '':'' CHR ''_'' host)"

definition domain_key :: "(string \<Rightarrow> exn option) \<Rightarrow> string \<Rightarrow> exn + string" where
  "domain_key cbh url =
     (case urlparse_netloc cbh url of
        Inl e \<Rightarrow> Inl e
      | Inr netloc \<Rightarrow>
          (let host = lower netloc;
               host' = (if host = [] then lower url else host)
           in Inr (safe_name host')))"

definition session_path :: "string \<Rightarrow> path" where
  "session_path key = Sessions (key @ ''.json'')"

definition meta_path :: "string \<Rightarrow> path" where
  "meta_path key = Sessions (key @ ''.meta.json'')"

text \<open>
  \<open>time.time()\<close> as the float \<open>m * 2 ^ e\<close> and the formatted \<open>time.gmtime()\<close>, both read from
  the clock the caller passes.
\<close>

record clock =
  time_time :: "int \<times> int"
  gmtime_iso :: string

text \<open>
  \<open>save_session\<close>: the blob is written before the counts are computed and before the
  metadata file is opened, so the file system is returned with the result also when an
  exception is raised. A domain key holds no \<open>/\<close>, so both names are names of files in
  \<open>SESSIONS_DIR\<close>.
\<close>

definition save_session ::
  "(string \<Rightarrow> exn option) \<Rightarrow> clock \<Rightarrow> string \<Rightarrow> path \<Rightarrow> fs \<Rightarrow> (exn + string) \<times> fs" where
  "save_session cbh clk url storage_state_path fs =
     (case domain_key cbh url of
        Inl e \<Rightarrow> (Inl e, fs)
      | Inr key \<Rightarrow>
     (case json_load_file fs storage_state_path of
        Inl e \<Rightarrow> (Inl e, fs)
      | Inr data \<Rightarrow>
     (case open_write (session_path key) (Json data) fs of
        Inl e \<Rightarrow> (Inl e, fs)
      | Inr fs1 \<Rightarrow>
     (case dict_get data ''cookies'' (JArr []) of
        Inl e \<Rightarrow> (Inl e, fs1)
      | Inr cookies \<Rightarrow>
     (case py_len cookies of
        Inl e \<Rightarrow> (Inl e, fs1)
      | Inr cookie_count \<Rightarrow>
     (case dict_get data ''origins'' (JArr []) of
        Inl e \<Rightarrow> (Inl e, fs1)
      | Inr origins \<Rightarrow>
     (case py_len origins of
        Inl e \<Rightarrow> (Inl e, fs1)
      | Inr origin_count \<Rightarrow>
     (let meta = JObj
            [(''url'', JStr url),
             (''domain_key'', JStr key),
             (''saved_at'', JFloat (fst (time_time clk)) (snd (time_time clk))),
             (''saved_at_iso'', JStr (gmtime_iso clk)),
             (''cookie_count'', JInt (int cookie_count)),
             (''origin_count'', JInt (int origin_count))]
      in case open_write (meta_path key) (Json meta) fs1 of
           Inl e \<Rightarrow> (Inl e, fs1)
         | Inr fs2 \<Rightarrow> (Inr key, fs2)))))))))"

definition get_session_path :: "(string \<Rightarrow> exn option) \<Rightarrow> fs \<Rightarrow> string \<Rightarrow> exn + path option" where
  "get_session_path cbh fs url =
     (case domain_key cbh url of
        Inl e \<Rightarrow> Inl e
      | Inr key \<Rightarrow>
          (case path_exists fs (session_path key) of
             Inl e \<Rightarrow> Inl e
           | Inr True \<Rightarrow> Inr (Some (session_path key))
           | Inr False \<Rightarrow> Inr None))"

text \<open>The body of the \<open>try\<close> of \<open>is_session_effective\<close>.\<close>

definition effective_body :: "fs \<Rightarrow> path \<Rightarrow> exn + bool" where
  "effective_body fs p =
     (case json_load_file fs p of
        Inl e \<Rightarrow> Inl e
      | Inr data \<Rightarrow>
     (case dict_get data ''cookies'' JNull of
        Inl e \<Rightarrow> Inl e
      | Inr c \<Rightarrow>
     (case dict_get data ''origins'' JNull of
        Inl e \<Rightarrow> Inl e
      | Inr orig \<Rightarrow>
          Inr (truthy (py_or (py_or c (JArr [])) (py_or orig (JArr [])))))))"

definition is_session_effective :: "(string \<Rightarrow> exn option) \<Rightarrow> fs \<Rightarrow> string \<Rightarrow> exn + bool" where
  "is_session_effective cbh fs url =
     (case get_session_path cbh fs url of
        Inl e \<Rightarrow> Inl e
      | Inr None \<Rightarrow> Inr False
      | Inr (Some p) \<Rightarrow>
          (case effective_body fs p of
             Inl e \<Rightarrow> Inr False
           | Inr b \<Rightarrow> Inr b))"

text \<open>
  \<open>sorted(SESSIONS_DIR.glob("*.meta.json"))\<close>: the names in the directory that end in
  \<open>.meta.json\<close>, in the order of \<open>Path\<close> comparison (POSIX: the order of the name strings).
  A directory holds no name with a \<open>/\<close> or a NUL or of more than \<open>NAME_MAX\<close> bytes, so a
  binding under such a name is no file of the directory.
\<close>

definition file_name :: "string \<Rightarrow> bool" where
  "file_name n = (CHR ''/'' \<notin> set n \<and> CHR 0x00 \<notin> set n \<and> length n \<le> NAME_MAX)"

fun dir_names :: "fs \<Rightarrow> string list" where
  "dir_names [] = []"
| "dir_names ((Sessions n, c) # fs) = n # dir_names fs"
| "dir_names ((Outside p, c) # fs) = dir_names fs"

definition glob_meta :: "fs \<Rightarrow> string list" where
  "glob_meta fs =
     sort (remdups (filter (\<lambda>n. file_name n \<and> suffix ''.meta.json'' n) (dir_names fs)))"

text \<open>
  The body of the \<open>try\<close> of \<open>list_sessions\<close> for one metadata file. The f-string
  \<open>f"{domain_key}.json"\<close> formats a value that is not a string with \<open>fmt\<close>, Python's
  \<open>format\<close>, a parameter here. The \<open>domain_key\<close> is whatever the file holds: joined to
  \<open>SESSIONS_DIR\<close>, a name with a \<open>/\<close> is resolved by \<open>pathlib\<close> and the file system
  (\<open>./a.json\<close>, \<open>../x.json\<close>, \<open>/etc/x.json\<close>) and may lead out of the directory; what
  \<open>Path.exists()\<close> returns or raises for it is the parameter \<open>elsewhere\<close>.
\<close>

definition joined_exists :: "(string \<Rightarrow> exn + bool) \<Rightarrow> fs \<Rightarrow> string \<Rightarrow> exn + bool" where
  "joined_exists elsewhere fs n =
     (if CHR ''/'' \<in> set n then elsewhere n else path_exists fs (Sessions n))"

definition format_value :: "(json \<Rightarrow> string) \<Rightarrow> json \<Rightarrow> string" where
  "format_value fmt v = (case v of JStr s \<Rightarrow> s | _ \<Rightarrow> fmt v)"

definition set_item :: "json \<Rightarrow> string \<Rightarrow> json \<Rightarrow> json" where
  "set_item d k v = (case d of JObj kv \<Rightarrow> JObj (AList.update k v kv) | _ \<Rightarrow> d)"

definition load_meta ::
  "(json \<Rightarrow> string) \<Rightarrow> (string \<Rightarrow> exn + bool) \<Rightarrow> fs \<Rightarrow> string \<Rightarrow> exn + json" where
  "load_meta fmt elsewhere fs n =
     (case json_load_file fs (Sessions n) of
        Inl e \<Rightarrow> Inl e
      | Inr meta \<Rightarrow>
     (case subscript meta ''domain_key'' of
        Inl e \<Rightarrow> Inl e
      | Inr dk \<Rightarrow>
     (case joined_exists elsewhere fs (format_value fmt dk @ ''.json'') of
        Inl e \<Rightarrow> Inl e
      | Inr b \<Rightarrow> Inr (set_item meta ''session_file_exists'' (JBool b)))))"

fun collect_sessions ::
  "(json \<Rightarrow> string) \<Rightarrow> (string \<Rightarrow> exn + bool) \<Rightarrow> fs \<Rightarrow> string list \<Rightarrow> json list" where
  "collect_sessions fmt elsewhere fs [] = []"
| "collect_sessions fmt elsewhere fs (n # ns) =
     (case load_meta fmt elsewhere fs n of
        Inl e \<Rightarrow> collect_sessions fmt elsewhere fs ns
      | Inr meta \<Rightarrow> meta # collect_sessions fmt elsewhere fs ns)"

definition list_sessions :: "(json \<Rightarrow> string) \<Rightarrow> (string \<Rightarrow> exn + bool) \<Rightarrow> fs \<Rightarrow> json list" where
  "list_sessions fmt elsewhere fs = collect_sessions fmt elsewhere fs (glob_meta fs)"

text \<open>
  The loop of \<open>delete_session\<close> over the two paths. \<open>path.exists()\<close> can raise, after the
  first file was unlinked too; \<open>path.unlink()\<close> runs only on a file that was just found.
\<close>

fun unlink_existing :: "path list \<Rightarrow> bool \<Rightarrow> fs \<Rightarrow> (exn + bool) \<times> fs" where
  "unlink_existing [] deleted fs = (Inr deleted, fs)"
| "unlink_existing (p # ps) deleted fs =
     (case path_exists fs p of
        Inl e \<Rightarrow> (Inl e, fs)
      | Inr True \<Rightarrow> unlink_existing ps True (unlink p fs)
      | Inr False \<Rightarrow> unlink_existing ps deleted fs)"

definition delete_session :: "(string \<Rightarrow> exn option) \<Rightarrow> string \<Rightarrow> fs \<Rightarrow> (exn + bool) \<times> fs" where
  "delete_session cbh url fs =
     (case domain_key cbh url of
        Inl e \<Rightarrow> (Inl e, fs)
      | Inr key \<Rightarrow>
          unlink_existing [session_path key, meta_path key] False fs)"

section \<open>The browser driver\<close>

text \<open>
  Playwright, the clock and the TOTP generator are outside the repository. The state of
  that world (browser, pages, network, time) is a value of an arbitrary type \<open>'w\<close>; an
  operation takes the state and returns its result, or the exception it raised, and the
  next state. The driver is the record of the operations the code calls:
  \<^item> \<open>page_url\<close>: \<open>page.url\<close>;
  \<^item> \<open>wait_for_load_state\<close>: \<open>page.wait_for_load_state('networkidle', timeout=10000)\<close>;
  \<^item> \<open>is_visible sel t\<close>: \<open>page.locator(sel).first.is_visible(timeout=t)\<close>;
  \<^item> \<open>fill sel v\<close>: \<open>page.locator(sel).first.fill(v)\<close>;
  \<^item> \<open>click sel\<close>: \<open>page.locator(sel).first.click()\<close>;
  \<^item> \<open>wait_for_selector sel t\<close>: \<open>page.wait_for_selector(sel, timeout=t)\<close>;
  \<^item> \<open>box_count sel\<close>: \<open>page.locator(sel).count()\<close>;
  \<^item> \<open>box_fill sel i s\<close>: \<open>page.locator(sel).nth(i).fill(s)\<close>;
  \<^item> \<open>sleep n\<close>: \<open>asyncio.sleep(n)\<close>, which raises nothing;
  \<^item> \<open>gen_totp secret\<close>: \<open>pyotp.TOTP(secret).now()\<close>;
  \<^item> \<open>channel_available\<close>: \<open>is_browser_channel_available\<close>, a search of the environment
    and of the installed programs, taken to return;
  \<^item> \<open>controller_enter\<close> and \<open>controller_exit\<close>: \<open>BrowserController.__aenter__\<close> and
    \<open>__aexit__\<close>, which only call Playwright;
  \<^item> \<open>new_page\<close>: \<open>controller.context.new_page()\<close>; \<open>goto u t\<close>: \<open>page.goto(u, timeout=t)\<close>;
  \<^item> \<open>export_storage_state\<close>: \<open>controller.context.storage_state()\<close>, the cookies and the
    origins of Playwright's \<open>StorageState\<close>.
\<close>

type_synonym ('a, 'w) action = "'w \<Rightarrow> (exn + 'a) \<times> 'w"

record browser_config =
  cfg_name :: string
  cfg_channel :: "string option"
  cfg_headed :: bool
  cfg_storage_state :: "path option"
  cfg_user_data_dir :: "string option"
  cfg_timeout_ms :: nat

record 'w driver =
  page_url :: "'w \<Rightarrow> string"
  wait_for_load_state :: "(unit, 'w) action"
  is_visible :: "string \<Rightarrow> nat \<Rightarrow> (bool, 'w) action"
  fill :: "string \<Rightarrow> string \<Rightarrow> (unit, 'w) action"
  click :: "string \<Rightarrow> (unit, 'w) action"
  wait_for_selector :: "string \<Rightarrow> nat \<Rightarrow> (unit, 'w) action"
  box_count :: "string \<Rightarrow> (nat, 'w) action"
  box_fill :: "string \<Rightarrow> nat \<Rightarrow> string \<Rightarrow> (unit, 'w) action"
  sleep :: "nat \<Rightarrow> 'w \<Rightarrow> 'w"
  gen_totp :: "string \<Rightarrow> (string, 'w) action"
  channel_available :: "string \<Rightarrow> bool"
  controller_enter :: "browser_config \<Rightarrow> (unit, 'w) action"
  controller_exit :: "(unit, 'w) action"
  new_page :: "(unit, 'w) action"
  goto :: "string \<Rightarrow> nat \<Rightarrow> (unit, 'w) action"
  export_storage_state :: "(json list \<times> json list, 'w) action"

section \<open>DOM helpers (helpers.py)\<close>

text \<open>
  Each candidate is tried in order; an exception of the probe or of the action moves on to
  the next candidate.
\<close>

fun fill_first_match :: "'w driver \<Rightarrow> string list \<Rightarrow> string \<Rightarrow> 'w \<Rightarrow> bool \<times> 'w" where
  "fill_first_match d [] v w = (False, w)"
| "fill_first_match d (sel # sels) v w =
     (case is_visible d sel 3000 w of
        (Inl e, w1) \<Rightarrow> fill_first_match d sels v w1
      | (Inr False, w1) \<Rightarrow> fill_first_match d sels v w1
      | (Inr True, w1) \<Rightarrow>
          (case fill d sel v w1 of
             (Inl e, w2) \<Rightarrow> fill_first_match d sels v w2
           | (Inr u, w2) \<Rightarrow> (True, w2)))"

fun click_first_match :: "'w driver \<Rightarrow> string list \<Rightarrow> 'w \<Rightarrow> bool \<times> 'w" where
  "click_first_match d [] w = (False, w)"
| "click_first_match d (sel # sels) w =
     (case is_visible d sel 3000 w of
        (Inl e, w1) \<Rightarrow> click_first_match d sels w1
      | (Inr False, w1) \<Rightarrow> click_first_match d sels w1
      | (Inr True, w1) \<Rightarrow>
          (case click d sel w1 of
             (Inl e, w2) \<Rightarrow> click_first_match d sels w2
           | (Inr u, w2) \<Rightarrow> (True, w2)))"

definition CODE_FACTOR_CANDIDATES :: "string list" where
  "CODE_FACTOR_CANDIDATES =
     [''text=/enter code/i'',
      ''text=/use code/i'',
      ''text=/use a code/i'',
      ''text=/Use verification code/i'',
      ''text=/Enter a verification code/i'',
      ''text=/verification code/i'',
      ''text=/Verify with something else/i'',
      ''text=/Enter a code/i'',
      ''text=/Google Authenticator|Authenticator app/i'',
      ''text=/Okta Verify/i'']"

definition maybe_switch_to_code_factor :: "'w driver \<Rightarrow> 'w \<Rightarrow> 'w" where
  "maybe_switch_to_code_factor d w = snd (click_first_match d CODE_FACTOR_CANDIDATES w)"

section \<open>The login engine (login.py)\<close>

record LoginCredentials =
  username :: "string option"
  password :: "string option"
  totp_secret :: "string option"

text \<open>The truth value of an optional string, and the string itself.\<close>

definition str_truthy :: "string option \<Rightarrow> bool" where
  "str_truthy s = (case s of None \<Rightarrow> False | Some t \<Rightarrow> t \<noteq> [])"

definition str_of :: "string option \<Rightarrow> string" where
  "str_of s = (case s of None \<Rightarrow> [] | Some t \<Rightarrow> t)"

definition USERNAME_SELECTORS :: "string list" where
  \<open>USERNAME_SELECTORS =
     [''#okta-signin-username'',
      ''input[name="identifier"]'',
      ''input[name="username"]'',
      ''input[autocomplete="username"]'',
      ''input[type="email"]'',
      ''input[data-se="o-form-input-username"]'',
      ''input[data-se*="username"]'',
      ''input[id="idp-discovery-username"]'',
      ''input[placeholder*="user" i]'',
      ''input[placeholder*="email" i]'',
      ''input[id*="username" i]'',
      ''input[id*="user" i]'',
      ''input[name*="user"]'',
      ''input[name*="login"]'',
      ''input[name*="email"]'',
      ''input[type="text"]:visible'',
      ''input:not([type]):visible'']\<close>

definition PASSWORD_SELECTORS :: "string list" where
  \<open>PASSWORD_SELECTORS =
     [''#okta-signin-password'',
      ''input[name="password"]'',
      ''input[autocomplete="current-password"]'',
      ''input[type="password"]'',
      ''input[data-se="o-form-input-password"]'',
      ''input[data-se*="password"]'',
      ''input[placeholder*="pass" i]'',
      ''input[id*="password" i]'',
      ''input[name*="pass"]'',
      ''input[name*="pwd"]'']\<close>

definition SUBMIT_SELECTORS :: "string list" where
  \<open>SUBMIT_SELECTORS =
     [''button[type="submit"]'',
      ''input[type="submit"]'',
      ''button:has-text("Sign in")'',
      ''button:has-text("Log in")'',
      ''#okta-signin-submit'']\<close>

definition NEXT_SELECTORS :: "string list" where
  \<open>NEXT_SELECTORS =
     [''button[type="submit"]'',
      ''input[type="submit"]'',
      ''button:has-text("Next")'',
      ''button:has-text("Continue")'']\<close>

definition OTP_SELECTORS :: "string list" where
  \<open>OTP_SELECTORS =
     [''input[name="credentials.passcode"]'',
      ''input[name="credentials.otp"]'',
      ''input[name="otp"]'',
      ''input[name="code"]'',
      ''input[name="passcode"]'',
      ''input[autocomplete="one-time-code"]'',
      ''input[inputmode="numeric"]'',
      ''input[type="tel"]'',
      ''input[type="text"][autocomplete="off"]'',
      ''input[id*="code" i]'',
      ''input[placeholder*="code" i]'',
      ''input[placeholder*="OTP" i]'',
      ''input[type="text"]:visible'']\<close>

definition MFA_SUBMIT_SELECTORS :: "string list" where
  \<open>MFA_SUBMIT_SELECTORS =
     [''button[type="submit"]'',
      ''input[type="submit"]'',
      ''button:has-text("Verify")'',
      ''button:has-text("Submit")'']\<close>

text \<open>The selectors written inside \<open>_is_on_portal\<close> and \<open>auto_login\<close>.\<close>

definition LOGIN_FIELDS :: string where
  \<open>LOGIN_FIELDS =
     ''#okta-signin-username, input[name="username"], input[type="password"], #okta-signin-password''\<close>

definition PASSWORD_FIELD :: string where
  \<open>PASSWORD_FIELD = ''input[type="password"], input[name="password"]''\<close>

definition DIGIT_BOXES :: string where
  \<open>DIGIT_BOXES = ''input[aria-label*="digit" i], input[maxlength="1"]''\<close>

text \<open>
  \<open>_is_on_portal\<close>: \<open>urlparse\<close> is outside the \<open>try\<close>, the visibility probe inside it.
\<close>

definition is_on_portal :: "'w driver \<Rightarrow> (string \<Rightarrow> exn option) \<Rightarrow> (bool, 'w) action" where
  "is_on_portal d cbh w =
     (case urlparse_netloc cbh (page_url d w) of
        Inl e \<Rightarrow> (Inl e, w)
      | Inr netloc \<Rightarrow>
          (if sublist ''okta'' (lower netloc) then (Inr False, w)
           else
             (case is_visible d LOGIN_FIELDS 1500 w of
                (Inl e, w1) \<Rightarrow> (Inr True, w1)
              | (Inr visible, w1) \<Rightarrow> (Inr (\<not> visible), w1))))"

text \<open>
  \<open>auto_login\<close>, lines 126 to 176: the credentials. The result is \<open>Some b\<close> where
  \<open>auto_login\<close> returns \<open>b\<close> there, and \<open>None\<close> where it goes on after the submit click.
\<close>

definition enter_credentials ::
  "'w driver \<Rightarrow> (string \<Rightarrow> exn option) \<Rightarrow> LoginCredentials \<Rightarrow> (bool option, 'w) action" where
  "enter_credentials d cbh creds w =
     (if \<not> (str_truthy (username creds) \<and> str_truthy (password creds)) then (Inr (Some False), w)
      else
        (let w1 = snd (wait_for_load_state d w) in
         case is_on_portal d cbh w1 of
           (Inl e, w2) \<Rightarrow> (Inl e, w2)
         | (Inr True, w2) \<Rightarrow> (Inr (Some True), w2)
         | (Inr False, w2) \<Rightarrow>
        (case fill_first_match d USERNAME_SELECTORS (str_of (username creds)) w2 of
           (user_ok, w3) \<Rightarrow>
        (case fill_first_match d PASSWORD_SELECTORS (str_of (password creds)) w3 of
           (pass_ok, w4) \<Rightarrow>
           if user_ok \<and> \<not> pass_ok then
             (let w5 = snd (click_first_match d NEXT_SELECTORS w4);
                  w6 = sleep d 3 w5;
                  w7 = snd (wait_for_selector d PASSWORD_FIELD 10000 w6)
              in case fill_first_match d PASSWORD_SELECTORS (str_of (password creds)) w7 of
                   (True, w8) \<Rightarrow> (Inr None, snd (click_first_match d SUBMIT_SELECTORS w8))
                 | (False, w8) \<Rightarrow> (Inr (Some False), w8))
           else if user_ok \<and> pass_ok then
             (Inr None, snd (click_first_match d SUBMIT_SELECTORS w4))
           else (Inr (Some False), w4)))))"

text \<open>
  Lines 191 to 200: the digit boxes. \<open>fill_boxes\<close> is the loop over
  \<open>enumerate(otp[:count])\<close>; any exception leaves \<open>otp_ok\<close> false.
\<close>

fun fill_boxes :: "'w driver \<Rightarrow> nat \<Rightarrow> string \<Rightarrow> (unit, 'w) action" where
  "fill_boxes d i [] w = (Inr (), w)"
| "fill_boxes d i (ch # chs) w =
     (case box_fill d DIGIT_BOXES i [ch] w of
        (Inl e, w1) \<Rightarrow> (Inl e, w1)
      | (Inr u, w1) \<Rightarrow> fill_boxes d (Suc i) chs w1)"

definition digit_boxes :: "'w driver \<Rightarrow> string \<Rightarrow> 'w \<Rightarrow> bool \<times> 'w" where
  "digit_boxes d otp w =
     (case box_count d DIGIT_BOXES w of
        (Inl e, w1) \<Rightarrow> (False, w1)
      | (Inr count, w1) \<Rightarrow>
          (if count \<ge> 6 then
             (case fill_boxes d 0 (take count otp) w1 of
                (Inl e, w2) \<Rightarrow> (False, w2)
              | (Inr u, w2) \<Rightarrow> (True, w2))
           else (False, w1)))"

text \<open>
  Lines 181 to 207: the MFA step; the result is \<open>otp_ok\<close>, and \<open>auto_login\<close> returns
  \<open>False\<close> where it is false.
\<close>

definition handle_mfa :: "'w driver \<Rightarrow> string \<Rightarrow> (bool, 'w) action" where
  "handle_mfa d secret w =
     (let w1 = maybe_switch_to_code_factor d w in
      case gen_totp d secret w1 of
        (Inl e, w2) \<Rightarrow> (Inl e, w2)
      | (Inr otp, w2) \<Rightarrow>
     (case fill_first_match d OTP_SELECTORS otp w2 of
        (single_ok, w3) \<Rightarrow>
     (case (if single_ok then (True, w3) else digit_boxes d otp w3) of
        (otp_ok, w4) \<Rightarrow>
          if otp_ok then
            (Inr True, sleep d 5 (snd (click_first_match d MFA_SUBMIT_SELECTORS w4)))
          else (Inr False, w4))))"

text \<open>
  Lines 209 to 222: \<open>wait_for_auth d cbh n\<close> is the loop with \<open>n\<close> ticks left, followed by
  the check of the host after the loop. After a probe that returned true, line 214 parses
  the URL of the page once more for the log line, outside any \<open>try\<close>.
\<close>

fun wait_for_auth :: "'w driver \<Rightarrow> (string \<Rightarrow> exn option) \<Rightarrow> nat \<Rightarrow> (bool, 'w) action" where
  "wait_for_auth d cbh 0 w =
     (case urlparse_netloc cbh (page_url d w) of
        Inl e \<Rightarrow> (Inl e, w)
      | Inr netloc \<Rightarrow> (if sublist ''okta'' (lower netloc) then (Inr False, w) else (Inr True, w)))"
| "wait_for_auth d cbh (Suc n) w =
     (case is_on_portal d cbh (sleep d 1 w) of
        (Inl e, w1) \<Rightarrow> (Inl e, w1)
      | (Inr True, w1) \<Rightarrow>
          (case urlparse_netloc cbh (page_url d w1) of
             Inl e \<Rightarrow> (Inl e, w1)
           | Inr netloc \<Rightarrow> (Inr True, w1))
      | (Inr False, w1) \<Rightarrow> wait_for_auth d cbh n w1)"

definition auto_login :: "'w driver \<Rightarrow> (string \<Rightarrow> exn option) \<Rightarrow> LoginCredentials \<Rightarrow> (bool, 'w) action" where
  "auto_login d cbh creds w =
     (case enter_credentials d cbh creds w of
        (Inl e, w1) \<Rightarrow> (Inl e, w1)
      | (Inr (Some b), w1) \<Rightarrow> (Inr b, w1)
      | (Inr None, w1) \<Rightarrow>
          (let w2 = sleep d 3 w1 in
           if str_truthy (totp_secret creds) then
             (case handle_mfa d (str_of (totp_secret creds)) w2 of
                (Inl e, w3) \<Rightarrow> (Inl e, w3)
              | (Inr False, w3) \<Rightarrow> (Inr False, w3)
              | (Inr True, w3) \<Rightarrow> wait_for_auth d cbh 10 w3)
           else wait_for_auth d cbh 10 w2))"

section \<open>The lifecycle operations (login.py)\<close>

















section \<open>Properties\<close>

subsection \<open>Notions of the specification and examples\<close>

text \<open>
  The collection named \<open>k\<close> of a session blob is non-empty: the blob is an object whose
  field \<open>k\<close> is present and true in Python's sense (for an array: not \<open>[]\<close>).
\<close>

definition has_entries :: "json \<Rightarrow> string \<Rightarrow> bool" where
  "has_entries blob k = (\<exists>kv v. blob = JObj kv \<and> map_of kv k = Some v \<and> truthy v)"

text \<open>
  The file \<open>n\<close> of the store holds a metadata record: a JSON object \<open>kv\<close> with a
  \<open>domain_key\<close> field \<open>dk\<close>.
\<close>

definition metadata_record :: "fs \<Rightarrow> string \<Rightarrow> (string \<times> json) list \<Rightarrow> json \<Rightarrow> bool" where
  "metadata_record fs n kv dk =
     (map_of fs (Sessions n) = Some (Json (JObj kv)) \<and> map_of kv ''domain_key'' = Some dk)"

text \<open>
  Whether the session blob named \<open>m\<close> exists, as far as it can be told. A name without
  \<open>/\<close> is a name in \<open>SESSIONS_DIR\<close>: no file has a name with a NUL, the question fails
  for a name of more than 255 bytes, and otherwise the store answers. A name with a \<open>/\<close>
  leads elsewhere, and the answer or the failure is that of the file system there.
\<close>

definition blob_flag :: "(string \<Rightarrow> exn + bool) \<Rightarrow> fs \<Rightarrow> string \<Rightarrow> bool option" where
  "blob_flag elsewhere fs m =
     (if CHR ''/'' \<in> set m then (case elsewhere m of Inl e \<Rightarrow> None | Inr b \<Rightarrow> Some b)
      else if CHR 0x00 \<in> set m then Some False
      else if 255 < length m then None
      else Some (map_of fs (Sessions m) \<noteq> None))"

text \<open>
  The entry \<open>r\<close> of the metadata file \<open>n\<close>: the file holds a metadata record, the existence
  of the blob \<open>domain_key.json\<close> can be told, and \<open>r\<close> is the record with that answer as
  \<open>session_file_exists\<close>. A metadata file is listed when it has an entry.
\<close>

definition entry_of ::
  "(json \<Rightarrow> string) \<Rightarrow> (string \<Rightarrow> exn + bool) \<Rightarrow> fs \<Rightarrow> string \<Rightarrow> json \<Rightarrow> bool" where
  "entry_of fmt elsewhere fs n r =
     (\<exists>kv dk b. metadata_record fs n kv dk
        \<and> blob_flag elsewhere fs (format_value fmt dk @ ''.json'') = Some b
        \<and> r = JObj (AList.update ''session_file_exists'' (JBool b) kv))"

definition listed :: "(json \<Rightarrow> string) \<Rightarrow> (string \<Rightarrow> exn + bool) \<Rightarrow> fs \<Rightarrow> string \<Rightarrow> bool" where
  "listed fmt elsewhere fs n = (\<exists>r. entry_of fmt elsewhere fs n r)"

text \<open>
  A character that may stand in the host of \<open>scheme://host/path\<close>: no delimiter, no
  bracket, and none of the bytes \<open>urlsplit\<close> removes.
\<close>

definition host_char :: "char \<Rightarrow> bool" where
  "host_char c = (\<not> netloc_delim c \<and> \<not> unsafe_byte c \<and> c \<noteq> CHR ''['' \<and> c \<noteq> CHR '']'')"

text \<open>What the two \<open>replace\<close> calls do to one character.\<close>

definition safe_char :: "char \<Rightarrow> char" where
  "safe_char c = (if c = CHR '':'' \<or> c = CHR ''/'' then CHR ''_'' else c)"

text \<open>
  Examples: a bracket check that accepts every host, a \<open>format\<close>, a clock, and the store
  with a session for \<open>https://a/\<close> and one for \<open>https://a-b/\<close>, both saved from the
  exported blob \<open>state.json\<close>, which has one cookie.
\<close>

definition accept_brackets :: "string \<Rightarrow> exn option" where
  "accept_brackets h = None"

definition plain_format :: "json \<Rightarrow> string" where
  "plain_format v = ''None''"

definition example_clock :: clock where
  "example_clock = \<lparr>time_time = (1700000000, 0), gmtime_iso = ''2023-11-14T22:13:20Z''\<rparr>"

definition example_blob :: json where
  "example_blob =
     JObj [(''cookies'', JArr [JObj [(''name'', JStr ''sid''), (''value'', JStr ''abc'')]]),
           (''origins'', JArr [])]"

definition example_fs :: fs where
  "example_fs = [(Outside ''state.json'', Json example_blob)]"

definition example_store :: fs where
  "example_store =
     snd (save_session accept_brackets example_clock ''https://a-b/'' (Outside ''state.json'')
       (snd (save_session accept_brackets example_clock ''https://a/'' (Outside ''state.json'')
          example_fs)))"

text \<open>
  A file system with nothing beside the store, for the joined paths of \<open>list_sessions\<close>;
  a store with one metadata record whose \<open>domain_key\<close> has 251 bytes; URLs without a
  scheme, which are their own domain keys, of 248 and 251 bytes and with a NUL; and a store
  that holds the blob of the first.
\<close>

definition nothing_elsewhere :: "string \<Rightarrow> exn + bool" where
  "nothing_elsewhere m = Inr False"

definition long_record_store :: fs where
  "long_record_store =
     [(Sessions ''x.meta.json'', Json (JObj [(''domain_key'', JStr (replicate 251 CHR ''a''))]))]"

definition url248 :: string where
  "url248 = replicate 248 CHR ''a''"

definition url251 :: string where
  "url251 = replicate 251 CHR ''a''"

definition nul_url :: string where
  "nul_url = [CHR ''a'', CHR 0x00]"

definition store248 :: fs where
  "store248 = [(Sessions (url248 @ ''.json''), Json example_blob)]"

text \<open>The store of the test \<open>test_is_session_effective_handles_bad_json\<close>.\<close>

definition broken_store :: fs where
  "broken_store = [(Sessions ''portal.example.com.json'', Unparseable ''{bad json'')]"

text \<open>
  The polling of \<open>auto_login\<close>, tick by tick: \<open>failed_ticks d cbh k w\<close> is the state after
  \<open>k\<close> ticks from \<open>w\<close> at each of which the probe \<open>_is_on_portal\<close> said no, and \<open>None\<close>
  when one of them said yes or raised.
\<close>

fun failed_ticks :: "'w driver \<Rightarrow> (string \<Rightarrow> exn option) \<Rightarrow> nat \<Rightarrow> 'w \<Rightarrow> 'w option" where
  "failed_ticks d cbh 0 w = Some w"
| "failed_ticks d cbh (Suc k) w =
     (case is_on_portal d cbh (sleep d 1 w) of
        (Inr False, w1) \<Rightarrow> failed_ticks d cbh k w1
      | (Inr True, w1) \<Rightarrow> None
      | (Inl e, w1) \<Rightarrow> None)"

text \<open>
  The authenticated signal was seen on the way to the state \<open>w'\<close>: a probe returned true
  and left the world in \<open>w'\<close>. The page of \<open>w\<close> is off the identity provider: its host
  does not contain \<open>okta\<close>.
\<close>

definition signal_seen :: "'w driver \<Rightarrow> (string \<Rightarrow> exn option) \<Rightarrow> 'w \<Rightarrow> bool" where
  "signal_seen d cbh w' = (\<exists>w0. is_on_portal d cbh w0 = (Inr True, w'))"

definition off_idp :: "'w driver \<Rightarrow> (string \<Rightarrow> exn option) \<Rightarrow> 'w \<Rightarrow> bool" where
  "off_idp d cbh w = (\<exists>h. urlparse_netloc cbh (page_url d w) = Inr h \<and> \<not> sublist ''okta'' (lower h))"



subsection \<open>An example driver\<close>

text \<open>
  A page that is at \<open>login_url\<close> and shows the elements \<open>visible\<close> selects until \<open>delay\<close>
  seconds have been slept, and from then on is at \<open>portal_url\<close> and shows none of them.
  It has \<open>boxes\<close> digit boxes; the TOTP generator gives \<open>otp\<close>; closing the browser raises
  \<open>exit_exn\<close> when there is one. The state of the world is the list of what was done to it.
\<close>

datatype event =
    Filled string string
  | Clicked string
  | BoxFilled nat string
  | Slept nat
  | Opened
  | Navigated string
  | Closed

fun elapsed :: "event list \<Rightarrow> nat" where
  "elapsed [] = 0"
| "elapsed (Slept n # w) = n + elapsed w"
| "elapsed (e # w) = elapsed w"

definition scripted_driver ::
  "string \<Rightarrow> string \<Rightarrow> nat \<Rightarrow> (string \<Rightarrow> bool) \<Rightarrow> nat \<Rightarrow> string \<Rightarrow> exn option
     \<Rightarrow> event list driver" where
  "scripted_driver login_url portal_url delay visible boxes otp exit_exn =
     \<lparr>page_url = (\<lambda>w. if elapsed w < delay then login_url else portal_url),
      wait_for_load_state = (\<lambda>w. (Inr (), w)),
      is_visible = (\<lambda>sel t w. (Inr (elapsed w < delay \<and> visible sel), w)),
      fill = (\<lambda>sel v w. (Inr (), w @ [Filled sel v])),
      click = (\<lambda>sel w. (Inr (), w @ [Clicked sel])),
      wait_for_selector = (\<lambda>sel t w. (Inr (), w)),
      box_count = (\<lambda>sel w. (Inr boxes, w)),
      box_fill = (\<lambda>sel i s w. (Inr (), w @ [BoxFilled i s])),
      sleep = (\<lambda>n w. w @ [Slept n]),
      gen_totp = (\<lambda>secret w. (Inr otp, w)),
      channel_available = (\<lambda>c. False),
      controller_enter = (\<lambda>config w. (Inr (), w @ [Opened])),
      controller_exit =
        (\<lambda>w. case exit_exn of None \<Rightarrow> (Inr (), w @ [Closed]) | Some e \<Rightarrow> (Inl e, w @ [Closed])),
      new_page = (\<lambda>w. (Inr (), w)),
      goto = (\<lambda>u t w. (Inr (), w @ [Navigated u])),
      export_storage_state = (\<lambda>w. (Inr ([JObj [(''name'', JStr ''sid'')]], []), w))\<rparr>"

text \<open>Every element is visible; no element is; only the sign-in form is.\<close>

definition all_visible :: "string \<Rightarrow> bool" where
  "all_visible sel = True"

definition none_visible :: "string \<Rightarrow> bool" where
  "none_visible sel = False"

definition form_visible :: "string \<Rightarrow> bool" where
  \<open>form_visible sel =
     (sel = ''#okta-signin-username'' \<or> sel = ''#okta-signin-password''
      \<or> sel = ''button[type="submit"]'')\<close>

definition example_creds :: LoginCredentials where
  "example_creds = \<lparr>username = Some ''user'', password = Some ''secret'', totp_secret = None\<rparr>"

definition example_totp_creds :: LoginCredentials where
  "example_totp_creds =
     \<lparr>username = Some ''user'', password = Some ''secret'', totp_secret = Some ''JBSWY3DPEHPK3PXP''\<rparr>"

text \<open>
  Pages: one that leaves the identity provider five seconds after the start, one that
  never does, and a sign-in page on a custom domain (no \<open>okta\<close> in its host) that
  never goes away. \<open>submitted\<close> is what the engine does to the sign-in form.
\<close>

definition redirecting_page :: "event list driver" where
  "redirecting_page =
     scripted_driver ''https://example.okta.com/signin'' ''https://portal.example.com/'' 5
       form_visible 0 [] None"

definition stuck_okta_page :: "event list driver" where
  "stuck_okta_page =
     scripted_driver ''https://example.okta.com/signin'' ''https://portal.example.com/'' 1000
       form_visible 0 [] None"

definition custom_domain_page :: "event list driver" where
  "custom_domain_page =
     scripted_driver ''https://login.example.com/signin'' ''https://portal.example.com/'' 1000
       all_visible 0 [] None"

text \<open>
  A portal page that moves on to the URL \<open>http://[\<close> while the visibility of the login
  fields is probed.
\<close>

definition navigating_page :: "event list driver" where
  "navigating_page =
     (scripted_driver ''https://portal.example.com/'' ''https://portal.example.com/'' 0
        none_visible 0 [] None)
     \<lparr>page_url := (\<lambda>w. if Navigated ''http://['' \<in> set w then ''http://[''
                         else ''https://portal.example.com/''),
      is_visible := (\<lambda>sel t w. (Inr False, w @ [Navigated ''http://['']))\<rparr>"

definition submitted :: "event list" where
  \<open>submitted =
     [Filled ''#okta-signin-username'' ''user'',
      Filled ''#okta-signin-password'' ''secret'',
      Clicked ''button[type="submit"]'']\<close>

text \<open>
  Sign-in pages with eight and with five digit boxes and no single code field, and what
  filling six boxes with the code \<open>123456\<close> does.
\<close>

definition mfa_page :: "event list driver" where
  "mfa_page =
     scripted_driver ''https://example.okta.com/signin'' ''https://portal.example.com/'' 1000
       form_visible 8 ''123456'' None"

definition few_boxes_page :: "event list driver" where
  "few_boxes_page =
     scripted_driver ''https://example.okta.com/signin'' ''https://portal.example.com/'' 1000
       form_visible 5 ''123456'' None"

definition six_filled :: "event list" where
  "six_filled =
     [BoxFilled 0 ''1'', BoxFilled 1 ''2'', BoxFilled 2 ''3'',
      BoxFilled 3 ''4'', BoxFilled 4 ''5'', BoxFilled 5 ''6'']"



subsection \<open>Files\<close>

lemma exists_unlink: "exists_file (unlink p fs) q = (q \<noteq> p \<and> exists_file fs q)"
  by (simp add: exists_file_def unlink_def delete_conv')

lemma map_of_unlink: "map_of (unlink p fs) q = (if q = p then None else map_of fs q)"
  by (simp add: unlink_def delete_conv')

lemma map_of_write: "map_of (write_file p c fs) q = (if q = p then Some c else map_of fs q)"
  by (simp add: write_file_def update_conv')

lemma exists_write: "exists_file (write_file p c fs) q = (q = p \<or> exists_file fs q)"
  by (simp add: exists_file_def map_of_write)

lemma session_meta_distinct: "session_path k \<noteq> meta_path k"
  by (simp add: session_path_def meta_path_def)

lemma path_exists_session:
  "path_exists fs (session_path key) =
     (if CHR 0x00 \<in> set key then Inr False
      else if 250 < length key then Inl name_too_long
      else Inr (exists_file fs (session_path key)))"
  by (auto simp: path_exists_def session_path_def NAME_MAX_def)

lemma path_exists_meta:
  "path_exists fs (meta_path key) =
     (if CHR 0x00 \<in> set key then Inr False
      else if 245 < length key then Inl name_too_long
      else Inr (exists_file fs (meta_path key)))"
  by (auto simp: path_exists_def meta_path_def NAME_MAX_def)

lemma open_write_session:
  "open_write (session_path key) c fs =
     (if CHR 0x00 \<in> set key then Inl null_byte
      else if 250 < length key then Inl name_too_long
      else Inr (write_file (session_path key) c fs))"
  by (auto simp: open_write_def session_path_def NAME_MAX_def)

lemma open_write_meta:
  "open_write (meta_path key) c fs =
     (if CHR 0x00 \<in> set key then Inl null_byte
      else if 245 < length key then Inl name_too_long
      else Inr (write_file (meta_path key) c fs))"
  by (auto simp: open_write_def meta_path_def NAME_MAX_def)

lemma json_load_session:
  "CHR 0x00 \<notin> set key \<Longrightarrow> length key \<le> 250 \<Longrightarrow>
   json_load_file fs (session_path key) =
     (case map_of fs (session_path key) of
        None \<Rightarrow> Inl (Exn ''FileNotFoundError'' ''No such file or directory'')
      | Some (Unparseable t) \<Rightarrow> Inl (Exn ''JSONDecodeError'' ''Expecting value'')
      | Some (Json j) \<Rightarrow> Inr j)"
  by (simp add: json_load_file_def session_path_def NAME_MAX_def)

lemma set_dir_names: "set (dir_names fs) = {n. Sessions n \<in> fst ` set fs}"
  by (induction fs rule: dir_names.induct) auto

subsection \<open>The domain key\<close>

lemma lower_char_range:
  "CHR ''A'' \<le> c \<Longrightarrow> c \<le> CHR ''Z'' \<Longrightarrow> CHR ''a'' \<le> lower_char c \<and> lower_char c \<le> CHR ''z''"
  by (simp add: lower_char_def less_eq_char_def)

lemma lower_char_other:
  assumes "\<not> is_alpha d"
  shows "lower_char c = d \<longleftrightarrow> c = d"
proof (cases "CHR ''A'' \<le> c \<and> c \<le> CHR ''Z''")
  case True
  then have "is_alpha (lower_char c)" "is_alpha c"
    using lower_char_range [of c] by (simp_all add: is_alpha_def)
  then show ?thesis using assms by auto
next
  case False
  then show ?thesis by (auto simp: lower_char_def)
qed

lemma not_alpha_marks:
  "\<not> is_alpha CHR ''_''" "\<not> is_alpha CHR '':''" "\<not> is_alpha CHR ''/''"
  by (simp_all add: is_alpha_def less_eq_char_def)

lemma safe_name_map: "safe_name s = map safe_char s"
  by (simp add: safe_name_def replace_char_def safe_char_def)

lemma safe_char_inj:
  assumes "safe_char x = safe_char y" "x \<noteq> CHR ''_''" "x \<noteq> CHR ''/''" "y \<noteq> CHR ''_''" "y \<noteq> CHR ''/''"
  shows "x = y"
proof (cases "x = CHR '':''")
  case True
  then have "safe_char y = CHR ''_''" using assms(1) by (simp add: safe_char_def)
  then have "y = CHR '':''" using assms(4,5) by (simp add: safe_char_def split: if_splits)
  with True show ?thesis by simp
next
  case False
  then have x: "safe_char x = x" using assms(3) by (simp add: safe_char_def)
  show ?thesis
  proof (cases "y = CHR '':''")
    case True
    then have "safe_char y = CHR ''_''" by (simp add: safe_char_def)
    with x assms(1,2) show ?thesis by simp
  next
    case False
    then have "safe_char y = y" using assms(5) by (simp add: safe_char_def)
    with x assms(1) show ?thesis by simp
  qed
qed

lemma safe_name_inj:
  assumes "safe_name a = safe_name b"
      and "\<forall>c\<in>set a. c \<noteq> CHR ''_'' \<and> c \<noteq> CHR ''/''"
      and "\<forall>c\<in>set b. c \<noteq> CHR ''_'' \<and> c \<noteq> CHR ''/''"
  shows "a = b"
proof -
  have "map safe_char a = map safe_char b" using assms(1) by (simp add: safe_name_map)
  moreover have "inj_on safe_char (set a \<union> set b)"
  proof (rule inj_onI)
    fix x y assume "x \<in> set a \<union> set b" "y \<in> set a \<union> set b" "safe_char x = safe_char y"
    with assms(2,3) show "x = y" by (blast intro: safe_char_inj)
  qed
  ultimately show ?thesis by (rule map_inj_on)
qed

lemma scheme_char_props:
  assumes "scheme_char c"
  shows "c \<noteq> CHR '':''" "\<not> unsafe_byte c" "\<not> c0_control_or_space c"
  using assms
  by (auto simp: scheme_char_def is_alpha_def unsafe_byte_def c0_control_or_space_def less_eq_char_def)

lemma delim_not_unsafe: "netloc_delim c \<Longrightarrow> \<not> unsafe_byte c"
  by (auto simp: netloc_delim_def unsafe_byte_def)

lemma filter_keeps_head:
  assumes "rest = [] \<or> netloc_delim (hd rest)"
  shows "filter (\<lambda>c. \<not> unsafe_byte c) rest = [] \<or> netloc_delim (hd (filter (\<lambda>c. \<not> unsafe_byte c) rest))"
  using assms by (cases rest) (auto simp: delim_not_unsafe)

lemma clean_url_shape:
  assumes s: "s \<noteq> []" "list_all scheme_char s"
      and h: "list_all host_char h"
  shows "clean_url (s @ ''://'' @ h @ rest) = s @ ''://'' @ h @ filter (\<lambda>c. \<not> unsafe_byte c) rest"
proof -
  obtain x xs where sx: "s = x # xs" using s(1) by (cases s) auto
  with s(2) have "\<not> c0_control_or_space x" by (simp add: scheme_char_props)
  then have "dropWhile c0_control_or_space (s @ ''://'' @ h @ rest) = s @ ''://'' @ h @ rest"
    using sx by simp
  moreover have "filter (\<lambda>c. \<not> unsafe_byte c) s = s"
    using s(2) by (simp add: list_all_iff scheme_char_props filter_id_conv)
  moreover have "filter (\<lambda>c. \<not> unsafe_byte c) h = h"
    using h by (simp add: list_all_iff host_char_def filter_id_conv)
  moreover have "\<not> unsafe_byte CHR '':''" "\<not> unsafe_byte CHR ''/''"
    by (simp_all add: unsafe_byte_def)
  ultimately show ?thesis by (simp add: clean_url_def)
qed

lemma drop_scheme_shape:
  assumes s: "s \<noteq> []" "is_alpha (hd s)" "list_all scheme_char s"
  shows "drop_scheme (s @ CHR '':'' # t) = t"
proof -
  have "\<forall>c\<in>set s. c \<noteq> CHR '':''" using s(3) by (auto simp: list_all_iff scheme_char_props)
  then have "takeWhile (\<lambda>c. c \<noteq> CHR '':'') (s @ CHR '':'' # t) = s"
    by (simp add: takeWhile_append2)
  then show ?thesis using s by (simp add: drop_scheme_def)
qed

lemma url_shape_netloc:
  assumes s: "s \<noteq> []" "is_alpha (hd s)" "list_all scheme_char s"
      and h: "list_all host_char h"
      and r: "rest = [] \<or> netloc_delim (hd rest)"
  shows "urlparse_netloc cbh (s @ ''://'' @ h @ rest) = Inr h"
proof -
  let ?rest = "filter (\<lambda>c. \<not> unsafe_byte c) rest"
  have "drop_scheme (clean_url (s @ ''://'' @ h @ rest)) = ''//'' @ h @ ?rest"
    using drop_scheme_shape [OF s, of "''//'' @ h @ ?rest"] clean_url_shape [OF s(1,3) h, of rest]
    by simp
  moreover have "takeWhile (\<lambda>c. \<not> netloc_delim c) (h @ ?rest) = h"
  proof -
    have "\<forall>c\<in>set h. \<not> netloc_delim c" using h by (simp add: list_all_iff host_char_def)
    moreover have "takeWhile (\<lambda>c. \<not> netloc_delim c) ?rest = []"
      using filter_keeps_head [OF r] by (cases ?rest) auto
    ultimately show ?thesis by (simp add: takeWhile_append2)
  qed
  moreover have "CHR ''['' \<notin> set h" "CHR '']'' \<notin> set h"
    using h by (auto simp: list_all_iff host_char_def)
  ultimately show ?thesis by (simp add: urlparse_netloc_def)
qed

lemma netloc_no_delim:
  assumes "urlparse_netloc cbh url = Inr h"
  shows "\<forall>c\<in>set h. \<not> netloc_delim c"
proof -
  have "\<forall>c\<in>set (takeWhile (\<lambda>c. \<not> netloc_delim c) xs). \<not> netloc_delim c" for xs
    by (auto dest: set_takeWhileD)
  with assms show ?thesis
    by (auto simp: urlparse_netloc_def Let_def split: if_splits option.splits)
qed

lemma set_lower: "set (lower h) = lower_char ` set h"
  by (simp add: lower_def)

lemma domain_key_nonempty:
  "urlparse_netloc cbh u = Inr h \<Longrightarrow> h \<noteq> [] \<Longrightarrow> domain_key cbh u = Inr (safe_name (lower h))"
  by (simp add: domain_key_def lower_def)

lemma lower_keeps_marks:
  assumes "\<forall>c\<in>set h. c \<noteq> CHR ''_'' \<and> c \<noteq> CHR ''/''"
  shows "\<forall>c\<in>set (lower h). c \<noteq> CHR ''_'' \<and> c \<noteq> CHR ''/''"
  using assms by (auto simp: set_lower lower_char_other not_alpha_marks)

text \<open>
  Claim C1, as the code has it. \<open>domain_key\<close> is a function of the URL alone. It raises
  where \<open>urlparse\<close> raises. For a non-empty network location \<open>h\<close> the key is \<open>h\<close> in lower
  case with \<open>:\<close> and \<open>/\<close> replaced by \<open>_\<close>, so two URLs with the identical non-empty host
  have the identical key, whatever their path or query: every URL \<open>scheme://host\<close> followed
  by nothing or by a path, query or fragment has the key of \<open>host\<close>. With an empty host
  the key is made from the whole URL in lower case. Two URLs whose non-empty hosts differ
  in lower case and hold no \<open>_\<close> have different keys.
\<close>

theorem domain_key_of_host:
  "(urlparse_netloc cbh u1 = Inr h \<and> urlparse_netloc cbh u2 = Inr h \<and> h \<noteq> [] \<longrightarrow>
      domain_key cbh u1 = Inr (safe_name (lower h)) \<and> domain_key cbh u2 = domain_key cbh u1)
   \<and> (urlparse_netloc cbh u1 = Inr [] \<longrightarrow> domain_key cbh u1 = Inr (safe_name (lower u1)))
   \<and> (urlparse_netloc cbh u1 = Inl e \<longrightarrow> domain_key cbh u1 = Inl e)
   \<and> (s \<noteq> [] \<and> is_alpha (hd s) \<and> list_all scheme_char s \<and> g \<noteq> [] \<and> list_all host_char g
        \<and> (r1 = [] \<or> netloc_delim (hd r1)) \<and> (r2 = [] \<or> netloc_delim (hd r2)) \<longrightarrow>
      domain_key cbh (s @ ''://'' @ g @ r1) = Inr (safe_name (lower g))
      \<and> domain_key cbh (s @ ''://'' @ g @ r2) = Inr (safe_name (lower g)))
   \<and> (urlparse_netloc cbh u1 = Inr h1 \<and> urlparse_netloc cbh u2 = Inr h2 \<and> h1 \<noteq> [] \<and> h2 \<noteq> []
        \<and> CHR ''_'' \<notin> set h1 \<and> CHR ''_'' \<notin> set h2 \<and> lower h1 \<noteq> lower h2 \<longrightarrow>
      domain_key cbh u1 \<noteq> domain_key cbh u2)"
proof (intro conjI impI; (elim conjE)?)
  assume "urlparse_netloc cbh u1 = Inr h" "urlparse_netloc cbh u2 = Inr h" "h \<noteq> []"
  then show "domain_key cbh u1 = Inr (safe_name (lower h))" "domain_key cbh u2 = domain_key cbh u1"
    by (simp_all add: domain_key_nonempty)
next
  assume "urlparse_netloc cbh u1 = Inr []"
  then show "domain_key cbh u1 = Inr (safe_name (lower u1))" by (simp add: domain_key_def lower_def)
next
  assume "urlparse_netloc cbh u1 = Inl e"
  then show "domain_key cbh u1 = Inl e" by (simp add: domain_key_def)
next
  assume a: "s \<noteq> []" "is_alpha (hd s)" "list_all scheme_char s" "g \<noteq> []" "list_all host_char g"
    and r: "r1 = [] \<or> netloc_delim (hd r1)" "r2 = [] \<or> netloc_delim (hd r2)"
  show "domain_key cbh (s @ ''://'' @ g @ r1) = Inr (safe_name (lower g))"
    using url_shape_netloc [OF a(1,2,3,5) r(1)] a(4) by (rule domain_key_nonempty)
  show "domain_key cbh (s @ ''://'' @ g @ r2) = Inr (safe_name (lower g))"
    using url_shape_netloc [OF a(1,2,3,5) r(2)] a(4) by (rule domain_key_nonempty)
next
  assume n: "urlparse_netloc cbh u1 = Inr h1" "urlparse_netloc cbh u2 = Inr h2"
    and ne: "h1 \<noteq> []" "h2 \<noteq> []"
    and us: "CHR ''_'' \<notin> set h1" "CHR ''_'' \<notin> set h2"
    and diff: "lower h1 \<noteq> lower h2"
  have "\<forall>c\<in>set h1. c \<noteq> CHR ''_'' \<and> c \<noteq> CHR ''/''"
    using netloc_no_delim [OF n(1)] us(1) by (auto simp: netloc_delim_def)
  then have m1: "\<forall>c\<in>set (lower h1). c \<noteq> CHR ''_'' \<and> c \<noteq> CHR ''/''" by (rule lower_keeps_marks)
  have "\<forall>c\<in>set h2. c \<noteq> CHR ''_'' \<and> c \<noteq> CHR ''/''"
    using netloc_no_delim [OF n(2)] us(2) by (auto simp: netloc_delim_def)
  then have m2: "\<forall>c\<in>set (lower h2). c \<noteq> CHR ''_'' \<and> c \<noteq> CHR ''/''" by (rule lower_keeps_marks)
  have "safe_name (lower h1) \<noteq> safe_name (lower h2)"
    using safe_name_inj [OF _ m1 m2] diff by blast
  then show "domain_key cbh u1 \<noteq> domain_key cbh u2"
    using n ne by (simp add: domain_key_nonempty)
qed

theorem domain_key_of_host_witness:
  "domain_key accept_brackets ''https://portal.example.com/app?x=1'' = Inr ''portal.example.com''
   \<and> domain_key accept_brackets ''https://Portal.Example.com/student'' = Inr ''portal.example.com''
   \<and> domain_key accept_brackets ''/login'' = Inr ''_login''
   \<and> domain_key accept_brackets ''http://['' = Inl (Exn ''ValueError'' ''Invalid IPv6 URL'')
   \<and> domain_key accept_brackets ''https://portal.example.com/app?x=1''
       \<noteq> domain_key accept_brackets ''https://other.example.com/app?x=1''"
proof -
  let ?c = accept_brackets
  let ?A = "''https://portal.example.com/app?x=1''"
  let ?B = "''https://other.example.com/app?x=1''"
  have n1: "urlparse_netloc ?c ?A = Inr ''portal.example.com''"
    by code_simp
  have n2: "urlparse_netloc ?c ?B = Inr ''other.example.com''"
    by code_simp
  have n3: "urlparse_netloc ?c ''/login'' = Inr []" by code_simp
  have n4: "urlparse_netloc ?c ''http://['' = Inl (Exn ''ValueError'' ''Invalid IPv6 URL'')" by code_simp
  have l: "lower ''portal.example.com'' \<noteq> lower ''other.example.com''" by code_simp
  have sh: "''https'' \<noteq> [] \<and> is_alpha (hd ''https'') \<and> list_all scheme_char ''https''
      \<and> ''Portal.Example.com'' \<noteq> [] \<and> list_all host_char ''Portal.Example.com''
      \<and> (''/student'' = [] \<or> netloc_delim (hd ''/student''))
      \<and> (''/student'' = [] \<or> netloc_delim (hd ''/student''))"
    by code_simp
  have e1: "safe_name (lower ''portal.example.com'') = ''portal.example.com''" by code_simp
  have e2: "safe_name (lower ''Portal.Example.com'') = ''portal.example.com''" by code_simp
  have e3: "safe_name (lower ''/login'') = ''_login''" by code_simp
  have u: "''portal.example.com'' \<noteq> [] \<and> ''other.example.com'' \<noteq> []
      \<and> CHR ''_'' \<notin> set ''portal.example.com'' \<and> CHR ''_'' \<notin> set ''other.example.com''"
    by simp
  note T = domain_key_of_host [where cbh = ?c and ?u1.0 = ?A and ?u2.0 = ?B
        and h = "''portal.example.com''" and ?h1.0 = "''portal.example.com''"
        and ?h2.0 = "''other.example.com''" and s = "''https''" and g = "''Portal.Example.com''"
        and ?r1.0 = "''/student''" and ?r2.0 = "''/student''"]
  have c2: "domain_key ?c (''https'' @ ''://'' @ ''Portal.Example.com'' @ ''/student'')
              = Inr (safe_name (lower ''Portal.Example.com''))"
    using T sh by blast
  have c5: "domain_key ?c ?A \<noteq> domain_key ?c ?B"
    using T n1 n2 l u by blast
  have c1: "domain_key ?c ?A = Inr (safe_name (lower ''portal.example.com''))"
    using domain_key_of_host [where cbh = ?c and ?u1.0 = ?A and ?u2.0 = ?A
        and h = "''portal.example.com''"] n1 by blast
  have c3: "domain_key ?c ''/login'' = Inr (safe_name (lower ''/login''))"
    using domain_key_of_host [where cbh = ?c and ?u1.0 = "''/login''"] n3 by blast
  have c4: "domain_key ?c ''http://['' = Inl (Exn ''ValueError'' ''Invalid IPv6 URL'')"
    using domain_key_of_host [where cbh = ?c and ?u1.0 = "''http://[''"
        and e = "Exn ''ValueError'' ''Invalid IPv6 URL''"] n4 by blast
  from c2 have c2': "domain_key ?c ''https://Portal.Example.com/student''
              = Inr (safe_name (lower ''Portal.Example.com''))" by simp
  have d1: "domain_key ?c ?A = Inr ''portal.example.com''" by (simp only: c1 e1)
  have d2: "domain_key ?c ''https://Portal.Example.com/student'' = Inr ''portal.example.com''"
    by (simp only: c2' e2)
  have d3: "domain_key ?c ''/login'' = Inr ''_login''" by (simp only: c3 e3)
  from d1 d2 d3 c4 c5 show ?thesis by (intro conjI)
qed

text \<open>
  Claim C1 as stated fails. The hosts \<open>a:1\<close> and \<open>a_1\<close> differ and share the key
  \<open>a_1\<close>; the URLs \<open>/a\<close> and \<open>/b\<close> have the identical (empty) host and different keys;
  and the URL \<open>http://[\<close> has no key, \<open>urlparse\<close> raises on it.
\<close>

theorem domain_key_collision:
  "urlparse_netloc accept_brackets ''https://a:1/'' = Inr ''a:1''
   \<and> urlparse_netloc accept_brackets ''https://a_1/'' = Inr ''a_1''
   \<and> domain_key accept_brackets ''https://a:1/'' = Inr ''a_1''
   \<and> domain_key accept_brackets ''https://a_1/'' = Inr ''a_1''
   \<and> urlparse_netloc accept_brackets ''/a'' = Inr []
   \<and> urlparse_netloc accept_brackets ''/b'' = Inr []
   \<and> domain_key accept_brackets ''/a'' = Inr ''_a''
   \<and> domain_key accept_brackets ''/b'' = Inr ''_b''
   \<and> domain_key accept_brackets ''http://['' = Inl (Exn ''ValueError'' ''Invalid IPv6 URL'')"
  by code_simp

text \<open>A domain key holds no \<open>/\<close>: it names a file of \<open>SESSIONS_DIR\<close> itself.\<close>

lemma domain_key_no_slash:
  assumes "domain_key cbh url = Inr key"
  shows "CHR ''/'' \<notin> set key"
proof -
  from assms obtain h where "key = safe_name h"
    by (auto simp: domain_key_def Let_def split: sum.splits)
  then show ?thesis by (auto simp: safe_name_map safe_char_def)
qed

subsection \<open>Listing\<close>

lemma joined_flag:
  "joined_exists elsewhere fs m = Inr b \<longleftrightarrow> blob_flag elsewhere fs m = Some b"
  by (auto simp: joined_exists_def blob_flag_def path_exists_def exists_file_def NAME_MAX_def
      name_too_long_def split: sum.splits)

lemma load_meta_Inr:
  assumes "file_name n"
  shows "load_meta fmt elsewhere fs n = Inr r \<longleftrightarrow> entry_of fmt elsewhere fs n r"
proof -
  from assms have ok: "\<not> has_nul (Sessions n)" "\<not> too_long (Sessions n)"
    by (simp_all add: file_name_def)
  show ?thesis
  proof (cases "map_of fs (Sessions n)")
    case None
    with ok show ?thesis
      by (simp add: load_meta_def json_load_file_def entry_of_def metadata_record_def)
  next
    case (Some c)
    show ?thesis
    proof (cases c)
      case (Unparseable t)
      with Some ok show ?thesis
        by (simp add: load_meta_def json_load_file_def entry_of_def metadata_record_def)
    next
      case (Json meta)
      show ?thesis
      proof (cases meta)
        case (JObj kv)
        show ?thesis
        proof (cases "map_of kv ''domain_key''")
          case None
          with Some Json JObj ok show ?thesis
            by (simp add: load_meta_def json_load_file_def entry_of_def metadata_record_def)
        next
          case dk: (Some dk)
          let ?m = "format_value fmt dk @ ''.json''"
          have l: "load_meta fmt elsewhere fs n =
                (case joined_exists elsewhere fs ?m of
                   Inl e \<Rightarrow> Inl e
                 | Inr b \<Rightarrow> Inr (JObj (AList.update ''session_file_exists'' (JBool b) kv)))"
            using Some Json JObj dk ok
            by (simp add: load_meta_def json_load_file_def set_item_def split: sum.splits)
          have e: "entry_of fmt elsewhere fs n r \<longleftrightarrow>
                (\<exists>b. blob_flag elsewhere fs ?m = Some b
                   \<and> r = JObj (AList.update ''session_file_exists'' (JBool b) kv))"
            using Some Json JObj dk by (auto simp: entry_of_def metadata_record_def)
          show ?thesis
            unfolding l e by (cases "joined_exists elsewhere fs ?m") (auto simp: joined_flag [symmetric])
        qed
      qed (use Some Json ok in
          \<open>simp_all add: load_meta_def json_load_file_def entry_of_def metadata_record_def\<close>)
    qed
  qed
qed

lemma load_meta_Inl:
  assumes "file_name n"
  shows "(\<exists>e. load_meta fmt elsewhere fs n = Inl e) \<longleftrightarrow> \<not> listed fmt elsewhere fs n"
proof -
  have "(\<exists>e. load_meta fmt elsewhere fs n = Inl e) \<longleftrightarrow> \<not> (\<exists>r. load_meta fmt elsewhere fs n = Inr r)"
    by (cases "load_meta fmt elsewhere fs n") auto
  then show ?thesis by (simp add: load_meta_Inr [OF assms] listed_def)
qed

lemma collect_sessions_rel:
  assumes "\<forall>n \<in> set ns. file_name n"
  shows "list_all2 (entry_of fmt elsewhere fs)
     (filter (listed fmt elsewhere fs) ns) (collect_sessions fmt elsewhere fs ns)"
  using assms
proof (induction ns)
  case Nil
  then show ?case by simp
next
  case (Cons n ns)
  then have fn: "file_name n" and IH: "list_all2 (entry_of fmt elsewhere fs)
     (filter (listed fmt elsewhere fs) ns) (collect_sessions fmt elsewhere fs ns)"
    by simp_all
  show ?case
  proof (cases "load_meta fmt elsewhere fs n")
    case (Inl e)
    then have "\<not> listed fmt elsewhere fs n" using load_meta_Inl [OF fn] by blast
    with Inl IH show ?thesis by simp
  next
    case (Inr r)
    then have e: "entry_of fmt elsewhere fs n r" using load_meta_Inr [OF fn] by blast
    then have "listed fmt elsewhere fs n" by (auto simp: listed_def)
    with e Inr IH show ?thesis by simp
  qed
qed

lemma glob_meta_props:
  "sorted (glob_meta fs)" "distinct (glob_meta fs)"
  "set (glob_meta fs) =
     {n. file_name n \<and> suffix ''.meta.json'' n \<and> map_of fs (Sessions n) \<noteq> None}"
  by (auto simp: glob_meta_def set_dir_names map_of_eq_None_iff)

text \<open>
  Claim C3, as the code has it. \<open>list_sessions\<close> never raises. It returns one entry for
  each file of the store whose name ends in \<open>.meta.json\<close>, which holds a metadata record (a
  JSON object with a \<open>domain_key\<close>) and for which the existence of the blob
  \<open>domain_key.json\<close> can be told, in the strictly increasing order of the names of the
  metadata files; each entry is the record with \<open>session_file_exists\<close> set to that answer:
  for a blob name without \<open>/\<close> of at most 255 bytes, whether the store holds that file
  (false if the name has a NUL). A file that does not parse or has no \<open>domain_key\<close>, and
  a record whose blob name is longer than 255 bytes or makes the file system fail
  elsewhere, gives no entry and stops nothing.
\<close>

theorem list_sessions_by_file_name:
  "\<exists>ns. sorted ns \<and> distinct ns
      \<and> set ns = {n. CHR ''/'' \<notin> set n \<and> CHR 0x00 \<notin> set n \<and> length n \<le> 255
                      \<and> map_of fs (Sessions n) \<noteq> None \<and> suffix ''.meta.json'' n
                      \<and> listed fmt elsewhere fs n}
      \<and> list_all2 (entry_of fmt elsewhere fs) ns (list_sessions fmt elsewhere fs)"
proof -
  let ?ns = "filter (listed fmt elsewhere fs) (glob_meta fs)"
  have "sorted ?ns" by (simp add: glob_meta_props sorted_wrt_filter)
  moreover have "distinct ?ns" by (simp add: glob_meta_props)
  moreover have "set ?ns = {n. CHR ''/'' \<notin> set n \<and> CHR 0x00 \<notin> set n \<and> length n \<le> 255
                      \<and> map_of fs (Sessions n) \<noteq> None \<and> suffix ''.meta.json'' n
                      \<and> listed fmt elsewhere fs n}"
    by (auto simp: glob_meta_props file_name_def NAME_MAX_def)
  moreover have "list_all2 (entry_of fmt elsewhere fs) ?ns (list_sessions fmt elsewhere fs)"
    unfolding list_sessions_def
    by (rule collect_sessions_rel) (simp add: glob_meta_props)
  ultimately show ?thesis by blast
qed

theorem list_sessions_by_file_name_witness:
  "\<exists>ns. sorted ns \<and> distinct ns
      \<and> list_all2 (entry_of plain_format nothing_elsewhere example_store) ns
           [JObj [(''url'', JStr ''https://a-b/''), (''domain_key'', JStr ''a-b''),
                  (''saved_at'', JFloat 1700000000 0), (''saved_at_iso'', JStr ''2023-11-14T22:13:20Z''),
                  (''cookie_count'', JInt 1), (''origin_count'', JInt 0),
                  (''session_file_exists'', JBool True)],
            JObj [(''url'', JStr ''https://a/''), (''domain_key'', JStr ''a''),
                  (''saved_at'', JFloat 1700000000 0), (''saved_at_iso'', JStr ''2023-11-14T22:13:20Z''),
                  (''cookie_count'', JInt 1), (''origin_count'', JInt 0),
                  (''session_file_exists'', JBool True)]]"
proof -
  have l: "list_sessions plain_format nothing_elsewhere example_store =
     [JObj [(''url'', JStr ''https://a-b/''), (''domain_key'', JStr ''a-b''),
            (''saved_at'', JFloat 1700000000 0), (''saved_at_iso'', JStr ''2023-11-14T22:13:20Z''),
            (''cookie_count'', JInt 1), (''origin_count'', JInt 0),
            (''session_file_exists'', JBool True)],
      JObj [(''url'', JStr ''https://a/''), (''domain_key'', JStr ''a''),
            (''saved_at'', JFloat 1700000000 0), (''saved_at_iso'', JStr ''2023-11-14T22:13:20Z''),
            (''cookie_count'', JInt 1), (''origin_count'', JInt 0),
            (''session_file_exists'', JBool True)]]"
    by code_simp
  from list_sessions_by_file_name [where fmt = plain_format and elsewhere = nothing_elsewhere
      and fs = example_store]
  obtain ns where "sorted ns" "distinct ns"
    "list_all2 (entry_of plain_format nothing_elsewhere example_store) ns
       (list_sessions plain_format nothing_elsewhere example_store)"
    by blast
  then show ?thesis unfolding l by blast
qed

text \<open>
  Claim C3 as stated fails, twice. On the order: the store holding the sessions of
  \<open>https://a/\<close> and \<open>https://a-b/\<close> is listed with the key \<open>a-b\<close> before the key \<open>a\<close>,
  while \<open>a\<close> is the smaller key; the file name \<open>a-b.meta.json\<close> is the smaller name. On
  the records returned: a metadata file that parses and has a \<open>domain_key\<close> of 251 bytes
  is left out, since asking for its blob raises inside the \<open>try\<close>.
\<close>

theorem list_sessions_counterexample:
  "list_sessions plain_format nothing_elsewhere example_store =
     [JObj [(''url'', JStr ''https://a-b/''), (''domain_key'', JStr ''a-b''),
            (''saved_at'', JFloat 1700000000 0), (''saved_at_iso'', JStr ''2023-11-14T22:13:20Z''),
            (''cookie_count'', JInt 1), (''origin_count'', JInt 0),
            (''session_file_exists'', JBool True)],
      JObj [(''url'', JStr ''https://a/''), (''domain_key'', JStr ''a''),
            (''saved_at'', JFloat 1700000000 0), (''saved_at_iso'', JStr ''2023-11-14T22:13:20Z''),
            (''cookie_count'', JInt 1), (''origin_count'', JInt 0),
            (''session_file_exists'', JBool True)]]
   \<and> ''a'' < ''a-b''
   \<and> ''a-b.meta.json'' < ''a.meta.json''
   \<and> json_load_file long_record_store (Sessions ''x.meta.json'')
       = Inr (JObj [(''domain_key'', JStr (replicate 251 CHR ''a''))])
   \<and> list_sessions plain_format nothing_elsewhere long_record_store = []"
proof -
  have 1: "list_sessions plain_format nothing_elsewhere example_store =
     [JObj [(''url'', JStr ''https://a-b/''), (''domain_key'', JStr ''a-b''),
            (''saved_at'', JFloat 1700000000 0), (''saved_at_iso'', JStr ''2023-11-14T22:13:20Z''),
            (''cookie_count'', JInt 1), (''origin_count'', JInt 0),
            (''session_file_exists'', JBool True)],
      JObj [(''url'', JStr ''https://a/''), (''domain_key'', JStr ''a''),
            (''saved_at'', JFloat 1700000000 0), (''saved_at_iso'', JStr ''2023-11-14T22:13:20Z''),
            (''cookie_count'', JInt 1), (''origin_count'', JInt 0),
            (''session_file_exists'', JBool True)]]"
    by code_simp
  have 2: "''a'' < ''a-b'' \<and> ''a-b.meta.json'' < ''a.meta.json''" by code_simp
  have 3: "json_load_file long_record_store (Sessions ''x.meta.json'')
       = Inr (JObj [(''domain_key'', JStr (replicate 251 CHR ''a''))])"
    by code_simp
  have 4: "list_sessions plain_format nothing_elsewhere long_record_store = []" by code_simp
  from 1 2 3 4 show ?thesis by blast
qed

subsection \<open>Effectiveness\<close>

lemma truthy_py_or: "truthy (py_or x y) = (truthy x \<or> truthy y)"
  by (simp add: py_or_def)

lemma effective_body_eq:
  assumes "\<not> has_nul p" "\<not> too_long p"
  shows "(case effective_body fs p of Inl e \<Rightarrow> False | Inr b \<Rightarrow> b) =
     (\<exists>blob. map_of fs p = Some (Json blob)
        \<and> (has_entries blob ''cookies'' \<or> has_entries blob ''origins''))"
proof (cases "map_of fs p")
  case None
  with assms show ?thesis by (simp add: effective_body_def json_load_file_def)
next
  case (Some c)
  show ?thesis
  proof (cases c)
    case (Unparseable t)
    with Some assms show ?thesis by (simp add: effective_body_def json_load_file_def)
  next
    case (Json blob)
    show ?thesis
    proof (cases blob)
      case (JObj kv)
      with Some Json assms show ?thesis
        by (auto simp: effective_body_def json_load_file_def has_entries_def truthy_py_or
            split: option.splits)
    qed (use Some Json assms in
        \<open>simp_all add: effective_body_def json_load_file_def has_entries_def\<close>)
  qed
qed

lemma is_session_effective_stored:
  assumes key: "domain_key cbh url = Inr key"
    and nul: "CHR 0x00 \<notin> set key" and len: "length key \<le> 250"
  shows "is_session_effective cbh fs url =
           Inr (\<exists>blob. map_of fs (session_path key) = Some (Json blob)
                  \<and> (has_entries blob ''cookies'' \<or> has_entries blob ''origins''))"
proof (cases "exists_file fs (session_path key)")
  case False
  with assms show ?thesis
    by (simp add: is_session_effective_def get_session_path_def path_exists_session
        exists_file_def)
next
  case True
  have ok: "\<not> has_nul (session_path key)" "\<not> too_long (session_path key)"
    using nul len by (simp_all add: session_path_def NAME_MAX_def)
  have "is_session_effective cbh fs url =
          Inr (case effective_body fs (session_path key) of Inl e \<Rightarrow> False | Inr b \<Rightarrow> b)"
    using assms True
    by (simp add: is_session_effective_def get_session_path_def path_exists_session
        split: sum.splits)
  then show ?thesis by (simp only: effective_body_eq [OF ok])
qed

text \<open>
  Claim C5, as the code has it. \<open>is_session_effective\<close> raises what \<open>urlparse\<close> raises on
  the URL, and \<open>OSError\<close> where the domain key has no NUL and more than 250 bytes, so that
  the name of its session file has more than 255. For a domain key with a NUL it returns
  false. For every other URL it returns, and returns true exactly when the session file of
  the key holds a JSON blob whose cookie collection or origin collection is non-empty; so
  it returns false when there is no session file and when the file does not parse.
\<close>

theorem is_session_effective_iff:
  "(domain_key cbh url = Inl e \<longrightarrow> is_session_effective cbh fs url = Inl e)
   \<and> (domain_key cbh url = Inr key \<and> CHR 0x00 \<notin> set key \<and> 250 < length key \<longrightarrow>
        is_session_effective cbh fs url = Inl (Exn ''OSError'' ''File name too long''))
   \<and> (domain_key cbh url = Inr key \<and> CHR 0x00 \<in> set key \<longrightarrow>
        is_session_effective cbh fs url = Inr False)
   \<and> (domain_key cbh url = Inr key \<and> CHR 0x00 \<notin> set key \<and> length key \<le> 250 \<longrightarrow>
        is_session_effective cbh fs url =
           Inr (\<exists>blob. map_of fs (session_path key) = Some (Json blob)
                  \<and> (has_entries blob ''cookies'' \<or> has_entries blob ''origins''))
        \<and> (map_of fs (session_path key) = None \<longrightarrow>
              is_session_effective cbh fs url = Inr False)
        \<and> (\<forall>t. map_of fs (session_path key) = Some (Unparseable t) \<longrightarrow>
              is_session_effective cbh fs url = Inr False)
        \<and> (\<forall>kv cs os. map_of fs (session_path key) = Some (Json (JObj kv))
                \<and> map_of kv ''cookies'' = Some (JArr cs) \<and> map_of kv ''origins'' = Some (JArr os) \<longrightarrow>
              is_session_effective cbh fs url = Inr (cs \<noteq> [] \<or> os \<noteq> [])))"
proof (intro conjI impI allI; (elim conjE)?)
  assume "domain_key cbh url = Inl e"
  then show "is_session_effective cbh fs url = Inl e"
    by (simp add: is_session_effective_def get_session_path_def)
next
  assume "domain_key cbh url = Inr key" "CHR 0x00 \<notin> set key" "250 < length key"
  then show "is_session_effective cbh fs url = Inl (Exn ''OSError'' ''File name too long'')"
    by (simp add: is_session_effective_def get_session_path_def path_exists_session
        name_too_long_def)
next
  assume "domain_key cbh url = Inr key" "CHR 0x00 \<in> set key"
  then show "is_session_effective cbh fs url = Inr False"
    by (simp add: is_session_effective_def get_session_path_def path_exists_session)
next
  assume a: "domain_key cbh url = Inr key" "CHR 0x00 \<notin> set key" "length key \<le> 250"
  show "is_session_effective cbh fs url =
           Inr (\<exists>blob. map_of fs (session_path key) = Some (Json blob)
                  \<and> (has_entries blob ''cookies'' \<or> has_entries blob ''origins''))"
    using a by (rule is_session_effective_stored)
next
  assume a: "domain_key cbh url = Inr key" "CHR 0x00 \<notin> set key" "length key \<le> 250"
    and "map_of fs (session_path key) = None"
  then show "is_session_effective cbh fs url = Inr False"
    by (simp add: is_session_effective_stored [OF a])
next
  fix t
  assume a: "domain_key cbh url = Inr key" "CHR 0x00 \<notin> set key" "length key \<le> 250"
    and "map_of fs (session_path key) = Some (Unparseable t)"
  then show "is_session_effective cbh fs url = Inr False"
    by (simp add: is_session_effective_stored [OF a])
next
  fix kv cs os
  assume a: "domain_key cbh url = Inr key" "CHR 0x00 \<notin> set key" "length key \<le> 250"
    and "map_of fs (session_path key) = Some (Json (JObj kv))"
      "map_of kv ''cookies'' = Some (JArr cs)" "map_of kv ''origins'' = Some (JArr os)"
  then show "is_session_effective cbh fs url = Inr (cs \<noteq> [] \<or> os \<noteq> [])"
    by (simp add: is_session_effective_stored [OF a] has_entries_def)
qed

theorem is_session_effective_iff_witness:
  "is_session_effective accept_brackets broken_store ''https://portal.example.com'' = Inr False
   \<and> is_session_effective accept_brackets example_store ''https://a/index.html'' = Inr True
   \<and> is_session_effective accept_brackets example_store ''https://b/index.html'' = Inr False
   \<and> is_session_effective accept_brackets example_store nul_url = Inr False"
proof -
  let ?e = "Exn [] []"
  have k1: "domain_key accept_brackets ''https://portal.example.com'' = Inr ''portal.example.com''
      \<and> CHR 0x00 \<notin> set ''portal.example.com'' \<and> length ''portal.example.com'' \<le> 250"
    by code_simp
  have f1: "map_of broken_store (session_path ''portal.example.com'') = Some (Unparseable ''{bad json'')"
    by code_simp
  have k2: "domain_key accept_brackets ''https://a/index.html'' = Inr ''a''
      \<and> CHR 0x00 \<notin> set ''a'' \<and> length ''a'' \<le> 250"
    by code_simp
  have f2: "map_of example_store (session_path ''a'') =
      Some (Json (JObj [(''cookies'', JArr [JObj [(''name'', JStr ''sid''), (''value'', JStr ''abc'')]]),
           (''origins'', JArr [])]))
      \<and> map_of [(''cookies'', JArr [JObj [(''name'', JStr ''sid''), (''value'', JStr ''abc'')]]),
           (''origins'', JArr [])] ''cookies'' = Some (JArr [JObj [(''name'', JStr ''sid''), (''value'', JStr ''abc'')]])
      \<and> map_of [(''cookies'', JArr [JObj [(''name'', JStr ''sid''), (''value'', JStr ''abc'')]]),
           (''origins'', JArr [])] ''origins'' = Some (JArr [])"
    by code_simp
  have k3: "domain_key accept_brackets ''https://b/index.html'' = Inr ''b''
      \<and> CHR 0x00 \<notin> set ''b'' \<and> length ''b'' \<le> 250"
    by code_simp
  have f3: "map_of example_store (session_path ''b'') = None" by code_simp
  have k4: "domain_key accept_brackets nul_url = Inr nul_url \<and> CHR 0x00 \<in> set nul_url"
    by code_simp
  have "is_session_effective accept_brackets broken_store ''https://portal.example.com'' = Inr False"
    using is_session_effective_iff [where cbh = accept_brackets
        and url = "''https://portal.example.com''" and key = "''portal.example.com''"
        and fs = broken_store and e = ?e] k1 f1
    by blast
  moreover have "is_session_effective accept_brackets example_store ''https://a/index.html''
      = Inr ([JObj [(''name'', JStr ''sid''), (''value'', JStr ''abc'')]] \<noteq> [] \<or> ([]::json list) \<noteq> [])"
    using is_session_effective_iff [where cbh = accept_brackets
        and url = "''https://a/index.html''" and key = "''a''" and fs = example_store and e = ?e]
      k2 f2
    by blast
  moreover have "is_session_effective accept_brackets example_store ''https://b/index.html'' = Inr False"
    using is_session_effective_iff [where cbh = accept_brackets
        and url = "''https://b/index.html''" and key = "''b''" and fs = example_store and e = ?e]
      k3 f3
    by blast
  moreover have "is_session_effective accept_brackets example_store nul_url = Inr False"
    using is_session_effective_iff [where cbh = accept_brackets
        and url = nul_url and key = nul_url and fs = example_store and e = ?e] k4
    by blast
  ultimately show ?thesis by simp
qed

text \<open>
  Claim C5 as stated fails: with an empty store, where no session exists for any URL,
  \<open>is_session_effective\<close> raises \<open>ValueError\<close> on the URL \<open>http://[\<close>, which \<open>urlparse\<close>
  rejects, and \<open>OSError\<close> on a URL of 251 bytes without a scheme, which is its own domain
  key.
\<close>

theorem is_session_effective_raises:
  "is_session_effective accept_brackets [] ''http://['' = Inl (Exn ''ValueError'' ''Invalid IPv6 URL'')
   \<and> domain_key accept_brackets url251 = Inr url251
   \<and> length url251 = 251
   \<and> is_session_effective accept_brackets [] url251 = Inl (Exn ''OSError'' ''File name too long'')"
proof -
  have 1: "is_session_effective accept_brackets [] ''http://[''
             = Inl (Exn ''ValueError'' ''Invalid IPv6 URL'')"
    by code_simp
  have 2: "domain_key accept_brackets url251 = Inr url251" by code_simp
  have 3: "length url251 = 251" by code_simp
  have 4: "is_session_effective accept_brackets [] url251
             = Inl (Exn ''OSError'' ''File name too long'')"
    by code_simp
  from 1 2 3 4 show ?thesis by blast
qed

subsection \<open>Deleting\<close>

lemma unlink_absent: "\<not> exists_file fs p \<Longrightarrow> unlink p fs = fs"
  by (induction fs) (auto simp: exists_file_def unlink_def)

lemma unlink_existing_short:
  assumes "CHR 0x00 \<notin> set key" "length key \<le> 245"
  shows "unlink_existing [session_path key, meta_path key] False fs =
     (Inr (exists_file fs (session_path key) \<or> exists_file fs (meta_path key)),
      unlink (meta_path key) (unlink (session_path key) fs))"
proof (cases "exists_file fs (session_path key)")
  case True
  with assms show ?thesis
    by (cases "exists_file (unlink (session_path key) fs) (meta_path key)")
      (simp_all add: path_exists_session path_exists_meta unlink_absent)
next
  case False
  with assms show ?thesis
    by (cases "exists_file fs (meta_path key)")
      (simp_all add: path_exists_session path_exists_meta unlink_absent)
qed

lemma delete_session_short:
  assumes "domain_key cbh url = Inr key" "CHR 0x00 \<notin> set key" "length key \<le> 245"
  shows "\<exists>fs'. delete_session cbh url fs =
            (Inr (exists_file fs (session_path key) \<or> exists_file fs (meta_path key)), fs')
          \<and> \<not> exists_file fs' (session_path key)
          \<and> \<not> exists_file fs' (meta_path key)
          \<and> (\<forall>p. p \<noteq> session_path key \<and> p \<noteq> meta_path key \<longrightarrow> map_of fs' p = map_of fs p)
          \<and> delete_session cbh url fs' = (Inr False, fs')"
proof -
  let ?fs' = "unlink (meta_path key) (unlink (session_path key) fs)"
  have d: "delete_session cbh url fs' = unlink_existing [session_path key, meta_path key] False fs'"
    for fs'
    using assms by (simp add: delete_session_def)
  have "delete_session cbh url fs =
      (Inr (exists_file fs (session_path key) \<or> exists_file fs (meta_path key)), ?fs')"
    unfolding d using assms(2,3) by (rule unlink_existing_short)
  moreover have "\<not> exists_file ?fs' (session_path key)" "\<not> exists_file ?fs' (meta_path key)"
    by (simp_all add: exists_unlink)
  moreover have "\<forall>p. p \<noteq> session_path key \<and> p \<noteq> meta_path key \<longrightarrow> map_of ?fs' p = map_of fs p"
    by (simp add: map_of_unlink)
  moreover have "delete_session cbh url ?fs' = (Inr False, ?fs')"
    unfolding d unlink_existing_short [OF assms(2,3)]
    by (simp add: exists_unlink unlink_absent)
  ultimately show ?thesis by blast
qed

text \<open>
  Claim C6, as the code has it. \<open>delete_session\<close> raises what \<open>urlparse\<close> raises on the
  URL and leaves the store alone. For a domain key with a NUL it returns false and leaves
  the store alone. For a domain key without NUL of more than 250 bytes it raises \<open>OSError\<close>
  at the first file; for one of 246 to 250 bytes it raises \<open>OSError\<close> at the metadata
  file, after the session blob, if there was one, has been removed. For a domain key
  without NUL of at most 245 bytes it returns whether the session blob or the metadata file
  of the key existed; after it neither exists and every other file is as before; a second
  delete on the same URL returns false and leaves the store as it is.
\<close>

theorem delete_session_idempotent:
  "(domain_key cbh url = Inl e \<longrightarrow> delete_session cbh url fs = (Inl e, fs))
   \<and> (domain_key cbh url = Inr key \<and> CHR 0x00 \<in> set key \<longrightarrow>
        delete_session cbh url fs = (Inr False, fs))
   \<and> (domain_key cbh url = Inr key \<and> CHR 0x00 \<notin> set key \<and> 250 < length key \<longrightarrow>
        delete_session cbh url fs = (Inl (Exn ''OSError'' ''File name too long''), fs))
   \<and> (domain_key cbh url = Inr key \<and> CHR 0x00 \<notin> set key
        \<and> 245 < length key \<and> length key \<le> 250 \<longrightarrow>
        delete_session cbh url fs =
          (Inl (Exn ''OSError'' ''File name too long''),
           if exists_file fs (session_path key) then unlink (session_path key) fs else fs))
   \<and> (domain_key cbh url = Inr key \<and> CHR 0x00 \<notin> set key \<and> length key \<le> 245 \<longrightarrow>
        (\<exists>fs'. delete_session cbh url fs =
            (Inr (exists_file fs (session_path key) \<or> exists_file fs (meta_path key)), fs')
          \<and> \<not> exists_file fs' (session_path key)
          \<and> \<not> exists_file fs' (meta_path key)
          \<and> (\<forall>p. p \<noteq> session_path key \<and> p \<noteq> meta_path key \<longrightarrow> map_of fs' p = map_of fs p)
          \<and> delete_session cbh url fs' = (Inr False, fs')))"
proof (intro conjI impI; (elim conjE)?)
  assume "domain_key cbh url = Inl e"
  then show "delete_session cbh url fs = (Inl e, fs)" by (simp add: delete_session_def)
next
  assume "domain_key cbh url = Inr key" "CHR 0x00 \<in> set key"
  then show "delete_session cbh url fs = (Inr False, fs)"
    by (simp add: delete_session_def path_exists_session path_exists_meta)
next
  assume "domain_key cbh url = Inr key" "CHR 0x00 \<notin> set key" "250 < length key"
  then show "delete_session cbh url fs = (Inl (Exn ''OSError'' ''File name too long''), fs)"
    by (simp add: delete_session_def path_exists_session name_too_long_def)
next
  assume "domain_key cbh url = Inr key" "CHR 0x00 \<notin> set key" "245 < length key"
    "length key \<le> 250"
  then show "delete_session cbh url fs =
          (Inl (Exn ''OSError'' ''File name too long''),
           if exists_file fs (session_path key) then unlink (session_path key) fs else fs)"
    by (simp add: delete_session_def path_exists_session path_exists_meta name_too_long_def)
next
  assume "domain_key cbh url = Inr key" "CHR 0x00 \<notin> set key" "length key \<le> 245"
  then show "\<exists>fs'. delete_session cbh url fs =
            (Inr (exists_file fs (session_path key) \<or> exists_file fs (meta_path key)), fs')
          \<and> \<not> exists_file fs' (session_path key)
          \<and> \<not> exists_file fs' (meta_path key)
          \<and> (\<forall>p. p \<noteq> session_path key \<and> p \<noteq> meta_path key \<longrightarrow> map_of fs' p = map_of fs p)
          \<and> delete_session cbh url fs' = (Inr False, fs')"
    by (rule delete_session_short)
qed

theorem delete_session_idempotent_witness:
  "fst (delete_session accept_brackets ''https://a/'' example_store) = Inr True
   \<and> \<not> exists_file (snd (delete_session accept_brackets ''https://a/'' example_store))
         (session_path ''a'')
   \<and> exists_file (snd (delete_session accept_brackets ''https://a/'' example_store))
         (session_path ''a-b'')
   \<and> delete_session accept_brackets ''https://a/''
        (snd (delete_session accept_brackets ''https://a/'' example_store))
       = (Inr False, snd (delete_session accept_brackets ''https://a/'' example_store))
   \<and> delete_session accept_brackets nul_url example_store = (Inr False, example_store)"
proof -
  let ?e = "Exn [] []"
  have k: "domain_key accept_brackets ''https://a/'' = Inr ''a''
      \<and> CHR 0x00 \<notin> set ''a'' \<and> length ''a'' \<le> 245"
    by code_simp
  have ex: "exists_file example_store (session_path ''a'')" by code_simp
  have other: "session_path ''a-b'' \<noteq> session_path ''a'' \<and> session_path ''a-b'' \<noteq> meta_path ''a''
      \<and> map_of example_store (session_path ''a-b'') \<noteq> None"
    by code_simp
  have kn: "domain_key accept_brackets nul_url = Inr nul_url \<and> CHR 0x00 \<in> set nul_url"
    by code_simp
  from delete_session_idempotent [where cbh = accept_brackets and url = "''https://a/''"
      and key = "''a''" and fs = example_store and e = ?e] k
  obtain fs' where
    d: "delete_session accept_brackets ''https://a/'' example_store =
          (Inr (exists_file example_store (session_path ''a'')
                \<or> exists_file example_store (meta_path ''a'')), fs')"
    and gone: "\<not> exists_file fs' (session_path ''a'')"
    and frame: "\<forall>p. p \<noteq> session_path ''a'' \<and> p \<noteq> meta_path ''a'' \<longrightarrow>
                 map_of fs' p = map_of example_store p"
    and again: "delete_session accept_brackets ''https://a/'' fs' = (Inr False, fs')"
    by blast
  from frame other have "exists_file fs' (session_path ''a-b'')"
    by (simp add: exists_file_def)
  moreover have "delete_session accept_brackets nul_url example_store = (Inr False, example_store)"
    using delete_session_idempotent [where cbh = accept_brackets and url = nul_url
        and key = nul_url and fs = example_store and e = ?e] kn
    by blast
  ultimately show ?thesis using d gone again ex by simp
qed

text \<open>
  Claim C6 as stated fails. On the URL \<open>http://[\<close>, which \<open>urlparse\<close> rejects,
  \<open>delete_session\<close> raises \<open>ValueError\<close>. On a URL of 248 bytes without a scheme, which
  is its own domain key, and a store that holds its session blob, \<open>delete_session\<close>
  removes the blob and then raises \<open>OSError\<close> instead of returning true; a second delete
  raises again instead of returning false.
\<close>

theorem delete_session_raises:
  "delete_session accept_brackets ''http://['' []
     = (Inl (Exn ''ValueError'' ''Invalid IPv6 URL''), [])
   \<and> domain_key accept_brackets url248 = Inr url248
   \<and> length url248 = 248
   \<and> exists_file store248 (session_path url248)
   \<and> delete_session accept_brackets url248 store248
     = (Inl (Exn ''OSError'' ''File name too long''), [])
   \<and> delete_session accept_brackets url248 []
     = (Inl (Exn ''OSError'' ''File name too long''), [])"
proof -
  have 1: "delete_session accept_brackets ''http://['' []
     = (Inl (Exn ''ValueError'' ''Invalid IPv6 URL''), [])"
    by code_simp
  have 2: "domain_key accept_brackets url248 = Inr url248" by code_simp
  have 3: "length url248 = 248" by code_simp
  have 4: "exists_file store248 (session_path url248)" by code_simp
  have 5: "delete_session accept_brackets url248 store248
     = (Inl (Exn ''OSError'' ''File name too long''), [])"
    by code_simp
  have 6: "delete_session accept_brackets url248 []
     = (Inl (Exn ''OSError'' ''File name too long''), [])"
    by code_simp
  from 1 2 3 4 5 6 show ?thesis by blast
qed

subsection \<open>Saving\<close>

lemma save_session_short:
  assumes key: "domain_key cbh url = Inr key"
      and src: "json_load_file fs src = Inr (JObj kv)"
      and cs: "map_of kv ''cookies'' = Some (JArr cs)"
      and os: "map_of kv ''origins'' = Some (JArr os)"
      and nul: "CHR 0x00 \<notin> set key" and len: "length key \<le> 245"
  shows "\<exists>fs' meta. save_session cbh clk url src fs = (Inr key, fs')
          \<and> get_session_path cbh fs' url = Inr (Some (session_path key))
          \<and> map_of fs' (session_path key) = Some (Json (JObj kv))
          \<and> map_of fs' (meta_path key) = Some (Json (JObj meta))
          \<and> map_of meta ''cookie_count'' = Some (JInt (int (length cs)))
          \<and> map_of meta ''origin_count'' = Some (JInt (int (length os)))
          \<and> map_of meta ''domain_key'' = Some (JStr key)
          \<and> map_of meta ''url'' = Some (JStr url)
          \<and> (\<forall>p. p \<noteq> session_path key \<and> p \<noteq> meta_path key \<longrightarrow> map_of fs' p = map_of fs p)"
  using assms session_meta_distinct [of key]
  by (simp add: save_session_def open_write_session open_write_meta get_session_path_def
      path_exists_session map_of_write exists_write)

text \<open>
  Claim C7, as the code has it. \<open>save_session\<close> raises what \<open>urlparse\<close> raises on the URL,
  and what reading the exported file raises, before it writes anything. For an exported
  blob that is a JSON object with a \<open>cookies\<close> array and an \<open>origins\<close> array: where the
  domain key has a NUL, \<open>save_session\<close> raises \<open>ValueError\<close> and writes nothing; where it
  has more than 250 bytes, \<open>OSError\<close>, and writes nothing; where it has 246 to 250 bytes,
  it writes the session blob and then raises \<open>OSError\<close> at the metadata file, which is
  not written. Where the domain key has no NUL and at most 245 bytes, \<open>save_session\<close>
  returns the key; afterwards \<open>get_session_path\<close> on the same URL returns the session path
  of the key, which holds the blob, and the metadata file of the key holds the lengths of
  the two arrays as \<open>cookie_count\<close> and \<open>origin_count\<close>, with the key and the URL. Whatever
  the two files of the key held before is overwritten; every other file is as before.
\<close>

theorem save_then_load:
  "(domain_key cbh url = Inl e \<longrightarrow> save_session cbh clk url src fs = (Inl e, fs))
   \<and> (domain_key cbh url = Inr key \<and> json_load_file fs src = Inl e \<longrightarrow>
        save_session cbh clk url src fs = (Inl e, fs))
   \<and> (domain_key cbh url = Inr key \<and> json_load_file fs src = Inr (JObj kv)
        \<and> map_of kv ''cookies'' = Some (JArr cs) \<and> map_of kv ''origins'' = Some (JArr os) \<longrightarrow>
        (CHR 0x00 \<in> set key \<longrightarrow>
           save_session cbh clk url src fs = (Inl (Exn ''ValueError'' ''embedded null byte''), fs))
        \<and> (CHR 0x00 \<notin> set key \<and> 250 < length key \<longrightarrow>
             save_session cbh clk url src fs = (Inl (Exn ''OSError'' ''File name too long''), fs))
        \<and> (CHR 0x00 \<notin> set key \<and> 245 < length key \<and> length key \<le> 250 \<longrightarrow>
             save_session cbh clk url src fs =
               (Inl (Exn ''OSError'' ''File name too long''),
                write_file (session_path key) (Json (JObj kv)) fs))
        \<and> (CHR 0x00 \<notin> set key \<and> length key \<le> 245 \<longrightarrow>
             (\<exists>fs' meta. save_session cbh clk url src fs = (Inr key, fs')
                \<and> get_session_path cbh fs' url = Inr (Some (session_path key))
                \<and> map_of fs' (session_path key) = Some (Json (JObj kv))
                \<and> map_of fs' (meta_path key) = Some (Json (JObj meta))
                \<and> map_of meta ''cookie_count'' = Some (JInt (int (length cs)))
                \<and> map_of meta ''origin_count'' = Some (JInt (int (length os)))
                \<and> map_of meta ''domain_key'' = Some (JStr key)
                \<and> map_of meta ''url'' = Some (JStr url)
                \<and> (\<forall>p. p \<noteq> session_path key \<and> p \<noteq> meta_path key \<longrightarrow>
                      map_of fs' p = map_of fs p))))"
proof (intro conjI impI; (elim conjE)?)
  assume "domain_key cbh url = Inl e"
  then show "save_session cbh clk url src fs = (Inl e, fs)" by (simp add: save_session_def)
next
  assume "domain_key cbh url = Inr key" "json_load_file fs src = Inl e"
  then show "save_session cbh clk url src fs = (Inl e, fs)" by (simp add: save_session_def)
next
  assume "domain_key cbh url = Inr key" "json_load_file fs src = Inr (JObj kv)"
    "CHR 0x00 \<in> set key"
  then show "save_session cbh clk url src fs = (Inl (Exn ''ValueError'' ''embedded null byte''), fs)"
    by (simp add: save_session_def open_write_session null_byte_def)
next
  assume "domain_key cbh url = Inr key" "json_load_file fs src = Inr (JObj kv)"
    "CHR 0x00 \<notin> set key" "250 < length key"
  then show "save_session cbh clk url src fs = (Inl (Exn ''OSError'' ''File name too long''), fs)"
    by (simp add: save_session_def open_write_session name_too_long_def)
next
  assume "domain_key cbh url = Inr key" "json_load_file fs src = Inr (JObj kv)"
    "map_of kv ''cookies'' = Some (JArr cs)" "map_of kv ''origins'' = Some (JArr os)"
    "CHR 0x00 \<notin> set key" "245 < length key" "length key \<le> 250"
  then show "save_session cbh clk url src fs =
               (Inl (Exn ''OSError'' ''File name too long''),
                write_file (session_path key) (Json (JObj kv)) fs)"
    by (simp add: save_session_def open_write_session open_write_meta name_too_long_def)
next
  assume "domain_key cbh url = Inr key" "json_load_file fs src = Inr (JObj kv)"
    "map_of kv ''cookies'' = Some (JArr cs)" "map_of kv ''origins'' = Some (JArr os)"
    "CHR 0x00 \<notin> set key" "length key \<le> 245"
  then show "\<exists>fs' meta. save_session cbh clk url src fs = (Inr key, fs')
                \<and> get_session_path cbh fs' url = Inr (Some (session_path key))
                \<and> map_of fs' (session_path key) = Some (Json (JObj kv))
                \<and> map_of fs' (meta_path key) = Some (Json (JObj meta))
                \<and> map_of meta ''cookie_count'' = Some (JInt (int (length cs)))
                \<and> map_of meta ''origin_count'' = Some (JInt (int (length os)))
                \<and> map_of meta ''domain_key'' = Some (JStr key)
                \<and> map_of meta ''url'' = Some (JStr url)
                \<and> (\<forall>p. p \<noteq> session_path key \<and> p \<noteq> meta_path key \<longrightarrow>
                      map_of fs' p = map_of fs p)"
    by (rule save_session_short)
qed

theorem save_then_load_witness:
  "fst (save_session accept_brackets example_clock ''https://portal.example.com/student''
          (Outside ''state.json'') example_store) = Inr ''portal.example.com''
   \<and> get_session_path accept_brackets
        (snd (save_session accept_brackets example_clock ''https://portal.example.com/student''
          (Outside ''state.json'') example_store)) ''https://portal.example.com/student''
       = Inr (Some (Sessions ''portal.example.com.json''))"
proof -
  have k: "domain_key accept_brackets ''https://portal.example.com/student'' = Inr ''portal.example.com''
      \<and> CHR 0x00 \<notin> set ''portal.example.com'' \<and> length ''portal.example.com'' \<le> 245"
    by code_simp
  have src: "json_load_file example_store (Outside ''state.json'') =
      Inr (JObj [(''cookies'', JArr [JObj [(''name'', JStr ''sid''), (''value'', JStr ''abc'')]]),
           (''origins'', JArr [])])"
    by code_simp
  have cs: "map_of [(''cookies'', JArr [JObj [(''name'', JStr ''sid''), (''value'', JStr ''abc'')]]),
           (''origins'', JArr [])] ''cookies'' = Some (JArr [JObj [(''name'', JStr ''sid''), (''value'', JStr ''abc'')]])"
    by simp
  have os: "map_of [(''cookies'', JArr [JObj [(''name'', JStr ''sid''), (''value'', JStr ''abc'')]]),
           (''origins'', JArr [])] ''origins'' = Some (JArr [])"
    by simp
  from save_then_load [where cbh = accept_brackets and clk = example_clock
      and url = "''https://portal.example.com/student''" and key = "''portal.example.com''"
      and src = "Outside ''state.json''" and fs = example_store and e = "Exn [] []"
      and kv = "[(''cookies'', JArr [JObj [(''name'', JStr ''sid''), (''value'', JStr ''abc'')]]),
           (''origins'', JArr [])]"
      and cs = "[JObj [(''name'', JStr ''sid''), (''value'', JStr ''abc'')]]" and os = "[]"]
    k src cs os
  obtain fs' where
    s: "save_session accept_brackets example_clock ''https://portal.example.com/student''
          (Outside ''state.json'') example_store = (Inr ''portal.example.com'', fs')"
    and g: "get_session_path accept_brackets fs' ''https://portal.example.com/student''
          = Inr (Some (session_path ''portal.example.com''))"
    by blast
  then show ?thesis by (simp add: session_path_def)
qed

text \<open>
  Claim C7 as stated fails, with the well-formed blob of \<open>state.json\<close>. On the URL
  \<open>http://[\<close>, which \<open>urlparse\<close> rejects, \<open>save_session\<close> raises \<open>ValueError\<close> and saves
  nothing. On a URL of 248 bytes without a scheme, which is its own domain key,
  \<open>save_session\<close> writes the session blob and raises \<open>OSError\<close>: no key is returned and
  no metadata is written, while \<open>get_session_path\<close> finds the blob. On a URL with a NUL
  \<open>save_session\<close> raises \<open>ValueError\<close> and saves nothing.
\<close>

theorem save_session_raises:
  "json_load_file example_fs (Outside ''state.json'') = Inr example_blob
   \<and> save_session accept_brackets example_clock ''http://['' (Outside ''state.json'') example_fs
     = (Inl (Exn ''ValueError'' ''Invalid IPv6 URL''), example_fs)
   \<and> domain_key accept_brackets url248 = Inr url248
   \<and> length url248 = 248
   \<and> save_session accept_brackets example_clock url248 (Outside ''state.json'') example_fs
     = (Inl (Exn ''OSError'' ''File name too long''), example_fs @ store248)
   \<and> get_session_path accept_brackets (example_fs @ store248) url248
     = Inr (Some (session_path url248))
   \<and> \<not> exists_file (example_fs @ store248) (meta_path url248)
   \<and> domain_key accept_brackets nul_url = Inr nul_url
   \<and> save_session accept_brackets example_clock nul_url (Outside ''state.json'') example_fs
     = (Inl (Exn ''ValueError'' ''embedded null byte''), example_fs)"
proof -
  have 1: "json_load_file example_fs (Outside ''state.json'') = Inr example_blob" by code_simp
  have 2: "save_session accept_brackets example_clock ''http://['' (Outside ''state.json'') example_fs
     = (Inl (Exn ''ValueError'' ''Invalid IPv6 URL''), example_fs)"
    by code_simp
  have 3: "domain_key accept_brackets url248 = Inr url248" by code_simp
  have 4: "length url248 = 248" by code_simp
  have 5: "save_session accept_brackets example_clock url248 (Outside ''state.json'') example_fs
     = (Inl (Exn ''OSError'' ''File name too long''), example_fs @ store248)"
    by code_simp
  have 6: "get_session_path accept_brackets (example_fs @ store248) url248
     = Inr (Some (session_path url248))"
    by code_simp
  have 7: "\<not> exists_file (example_fs @ store248) (meta_path url248)" by code_simp
  have 8: "domain_key accept_brackets nul_url = Inr nul_url" by code_simp
  have 9: "save_session accept_brackets example_clock nul_url (Outside ''state.json'') example_fs
     = (Inl (Exn ''ValueError'' ''embedded null byte''), example_fs)"
    by code_simp
  from 1 2 3 4 5 6 7 8 9 show ?thesis by blast
qed

subsection \<open>Polling\<close>

lemma failed_ticks_wait:
  "failed_ticks d cbh k w = Some wk \<Longrightarrow> wait_for_auth d cbh (k + n) w = wait_for_auth d cbh n wk"
proof (induction k arbitrary: w)
  case 0
  then show ?case by simp
next
  case (Suc k)
  from Suc.prems obtain w1 where
    p: "is_on_portal d cbh (sleep d 1 w) = (Inr False, w1)" and f: "failed_ticks d cbh k w1 = Some wk"
    by (auto split: prod.splits sum.splits bool.splits)
  from Suc.IH [OF f] p show ?case by simp
qed

lemma wait_for_auth_True:
  "wait_for_auth d cbh n w = (Inr True, w') \<Longrightarrow> signal_seen d cbh w' \<or> off_idp d cbh w'"
proof (induction n arbitrary: w)
  case 0
  then show ?case by (auto simp: off_idp_def split: sum.splits if_splits)
next
  case (Suc n)
  obtain r w1 where p: "is_on_portal d cbh (sleep d 1 w) = (r, w1)" by (cases "is_on_portal d cbh (sleep d 1 w)")
  show ?case
  proof (cases r)
    case (Inl e)
    with p Suc.prems show ?thesis by simp
  next
    case (Inr b)
    show ?thesis
    proof (cases b)
      case True
      with p Inr Suc.prems have "w' = w1" by (auto split: sum.splits)
      with p Inr True show ?thesis by (auto simp: signal_seen_def)
    next
      case False
      with p Inr Suc.prems have "wait_for_auth d cbh n w1 = (Inr True, w')" by simp
      then show ?thesis by (rule Suc.IH)
    qed
  qed
qed

lemma enter_credentials_True:
  assumes "enter_credentials d cbh creds w = (Inr (Some True), w')"
  shows "signal_seen d cbh w'"
proof -
  let ?w1 = "snd (wait_for_load_state d w)"
  obtain r w2 where p: "is_on_portal d cbh ?w1 = (r, w2)" by (cases "is_on_portal d cbh ?w1")
  from assms p have "r = Inr True \<and> w2 = w'"
    by (auto simp: enter_credentials_def Let_def split: if_splits sum.splits bool.splits prod.splits)
  with p show ?thesis by (auto simp: signal_seen_def)
qed

lemma auto_login_True:
  assumes "auto_login d cbh creds w = (Inr True, w')"
  shows "signal_seen d cbh w' \<or> off_idp d cbh w'"
proof -
  obtain r w1 where e: "enter_credentials d cbh creds w = (r, w1)"
    by (cases "enter_credentials d cbh creds w")
  show ?thesis
  proof (cases r)
    case (Inl x)
    with e assms show ?thesis by (simp add: auto_login_def)
  next
    case (Inr ob)
    show ?thesis
    proof (cases ob)
      case (Some b)
      with e Inr assms have "b = True" "w1 = w'" by (simp_all add: auto_login_def)
      with e Inr Some have "enter_credentials d cbh creds w = (Inr (Some True), w')" by simp
      then have "signal_seen d cbh w'" by (rule enter_credentials_True)
      then show ?thesis ..
    next
      case None
      show ?thesis
      proof (cases "str_truthy (totp_secret creds)")
        case False
        with e Inr None assms have "wait_for_auth d cbh 10 (sleep d 3 w1) = (Inr True, w')"
          by (simp add: auto_login_def)
        then show ?thesis by (rule wait_for_auth_True)
      next
        case True
        obtain m w3 where h: "handle_mfa d (str_of (totp_secret creds)) (sleep d 3 w1) = (m, w3)"
          by (cases "handle_mfa d (str_of (totp_secret creds)) (sleep d 3 w1)")
        from e Inr None True h assms have "wait_for_auth d cbh 10 w3 = (Inr True, w')"
          by (auto simp: auto_login_def split: sum.splits bool.splits)
        then show ?thesis by (rule wait_for_auth_True)
      qed
    qed
  qed
qed

text \<open>
  Claim C2, as the code has it. \<open>auto_login\<close> returns true only in a state in which a
  probe of the authenticated signal has just returned true (at the first check or at a
  polling tick), or in which the host of the page does not contain \<open>okta\<close>. Where the
  credentials were submitted and no TOTP secret is given, the result is that of the
  polling, three seconds later. The polling stops at the first tick whose probe returns
  true, in the state that probe left, and makes no further tick: it parses the URL of the
  page once more, for the log line, and returns true, or raises what \<open>urlparse\<close> raises
  on that URL. When all ten ticks have been used, it returns false where the host still
  contains \<open>okta\<close> and true where it does not, whether or not a login field is visible.
\<close>

theorem auto_login_polling:
  "(auto_login d cbh creds w = (Inr True, w') \<longrightarrow> signal_seen d cbh w' \<or> off_idp d cbh w')
   \<and> (enter_credentials d cbh creds w = (Inr None, w1) \<and> \<not> str_truthy (totp_secret creds) \<longrightarrow>
        auto_login d cbh creds w = wait_for_auth d cbh 10 (sleep d 3 w1))
   \<and> (k < 10 \<and> failed_ticks d cbh k w2 = Some wk
        \<and> is_on_portal d cbh (sleep d 1 wk) = (Inr True, w3)
        \<and> urlparse_netloc cbh (page_url d w3) = Inr h3 \<longrightarrow>
        wait_for_auth d cbh 10 w2 = (Inr True, w3))
   \<and> (k < 10 \<and> failed_ticks d cbh k w2 = Some wk
        \<and> is_on_portal d cbh (sleep d 1 wk) = (Inr True, w3)
        \<and> urlparse_netloc cbh (page_url d w3) = Inl e \<longrightarrow>
        wait_for_auth d cbh 10 w2 = (Inl e, w3))
   \<and> (failed_ticks d cbh 10 w2 = Some w10 \<and> urlparse_netloc cbh (page_url d w10) = Inr h \<longrightarrow>
        wait_for_auth d cbh 10 w2 = (Inr (\<not> sublist ''okta'' (lower h)), w10))"
proof (intro conjI impI; (elim conjE)?)
  assume "auto_login d cbh creds w = (Inr True, w')"
  then show "signal_seen d cbh w' \<or> off_idp d cbh w'" by (rule auto_login_True)
next
  assume "enter_credentials d cbh creds w = (Inr None, w1)" "\<not> str_truthy (totp_secret creds)"
  then show "auto_login d cbh creds w = wait_for_auth d cbh 10 (sleep d 3 w1)"
    by (simp add: auto_login_def)
next
  assume k: "k < 10" and f: "failed_ticks d cbh k w2 = Some wk"
    and p: "is_on_portal d cbh (sleep d 1 wk) = (Inr True, w3)"
    and u: "urlparse_netloc cbh (page_url d w3) = Inr h3"
  from k obtain m where m: "10 = k + Suc m" by (metis add_Suc_right less_imp_Suc_add)
  have "wait_for_auth d cbh (k + Suc m) w2 = wait_for_auth d cbh (Suc m) wk"
    using f by (rule failed_ticks_wait)
  with p u m show "wait_for_auth d cbh 10 w2 = (Inr True, w3)" by simp
next
  assume k: "k < 10" and f: "failed_ticks d cbh k w2 = Some wk"
    and p: "is_on_portal d cbh (sleep d 1 wk) = (Inr True, w3)"
    and u: "urlparse_netloc cbh (page_url d w3) = Inl e"
  from k obtain m where m: "10 = k + Suc m" by (metis add_Suc_right less_imp_Suc_add)
  have "wait_for_auth d cbh (k + Suc m) w2 = wait_for_auth d cbh (Suc m) wk"
    using f by (rule failed_ticks_wait)
  with p u m show "wait_for_auth d cbh 10 w2 = (Inl e, w3)" by simp
next
  assume f: "failed_ticks d cbh 10 w2 = Some w10"
    and u: "urlparse_netloc cbh (page_url d w10) = Inr h"
  have "wait_for_auth d cbh (10 + 0) w2 = wait_for_auth d cbh 0 w10"
    using f by (rule failed_ticks_wait)
  with u show "wait_for_auth d cbh 10 w2 = (Inr (\<not> sublist ''okta'' (lower h)), w10)" by simp
qed

theorem auto_login_polling_witness:
  "auto_login redirecting_page accept_brackets example_creds []
     = (Inr True, submitted @ [Slept 3, Slept 1, Slept 1])
   \<and> wait_for_auth stuck_okta_page accept_brackets 10 []
     = (Inr False, replicate 10 (Slept 1))
   \<and> wait_for_auth navigating_page accept_brackets 10 []
     = (Inl (Exn ''ValueError'' ''Invalid IPv6 URL''), [Slept 1, Navigated ''http://[''])"
proof -
  let ?d = redirecting_page
  have e: "enter_credentials ?d accept_brackets example_creds [] = (Inr None, submitted)"
    by code_simp
  have nt: "\<not> str_truthy (totp_secret example_creds)" by code_simp
  have f: "(1::nat) < 10 \<and> failed_ticks ?d accept_brackets 1 (sleep ?d 3 submitted)
             = Some (submitted @ [Slept 3, Slept 1])"
    by code_simp
  have p: "is_on_portal ?d accept_brackets (sleep ?d 1 (submitted @ [Slept 3, Slept 1]))
             = (Inr True, submitted @ [Slept 3, Slept 1, Slept 1])
      \<and> urlparse_netloc accept_brackets (page_url ?d (submitted @ [Slept 3, Slept 1, Slept 1]))
             = Inr ''portal.example.com''"
    by code_simp
  note T = auto_login_polling [where d = ?d and cbh = accept_brackets and creds = example_creds
      and w = "[]" and ?w1.0 = submitted and k = 1 and ?w2.0 = "sleep ?d 3 submitted"
      and wk = "submitted @ [Slept 3, Slept 1]"
      and ?w3.0 = "submitted @ [Slept 3, Slept 1, Slept 1]" and ?h3.0 = "''portal.example.com''"]
  have a1: "auto_login ?d accept_brackets example_creds []
      = wait_for_auth ?d accept_brackets 10 (sleep ?d 3 submitted)"
    using T e nt by blast
  have a2: "wait_for_auth ?d accept_brackets 10 (sleep ?d 3 submitted)
      = (Inr True, submitted @ [Slept 3, Slept 1, Slept 1])"
    using T f p by blast
  have g: "failed_ticks stuck_okta_page accept_brackets 10 [] = Some (replicate 10 (Slept 1))
      \<and> urlparse_netloc accept_brackets (page_url stuck_okta_page (replicate 10 (Slept 1)))
          = Inr ''example.okta.com''"
    by code_simp
  have s: "sublist ''okta'' (lower ''example.okta.com'')" by code_simp
  have a3: "wait_for_auth stuck_okta_page accept_brackets 10 []
      = (Inr (\<not> sublist ''okta'' (lower ''example.okta.com'')), replicate 10 (Slept 1))"
    using auto_login_polling [where d = stuck_okta_page and cbh = accept_brackets
        and ?w2.0 = "[]" and ?w10.0 = "replicate 10 (Slept 1)" and h = "''example.okta.com''"] g
    by blast
  have n: "(0::nat) < 10 \<and> failed_ticks navigating_page accept_brackets 0 [] = Some []
      \<and> is_on_portal navigating_page accept_brackets (sleep navigating_page 1 [])
          = (Inr True, [Slept 1, Navigated ''http://[''])
      \<and> urlparse_netloc accept_brackets (page_url navigating_page [Slept 1, Navigated ''http://[''])
          = Inl (Exn ''ValueError'' ''Invalid IPv6 URL'')"
    by code_simp
  have a4: "wait_for_auth navigating_page accept_brackets 10 []
      = (Inl (Exn ''ValueError'' ''Invalid IPv6 URL''), [Slept 1, Navigated ''http://[''])"
    using auto_login_polling [where d = navigating_page and cbh = accept_brackets and k = 0
        and ?w2.0 = "[]" and wk = "[]" and ?w3.0 = "[Slept 1, Navigated ''http://['']"
        and e = "Exn ''ValueError'' ''Invalid IPv6 URL''"] n
    by blast
  from a1 a2 a3 a4 s show ?thesis by simp
qed

text \<open>
  Claim C2 as stated fails: on a sign-in page whose host holds no \<open>okta\<close> and whose login
  fields stay visible, the first probe and all ten ticks say that the signal does not
  hold, and \<open>auto_login\<close> returns true.
\<close>

theorem auto_login_without_signal:
  "auto_login custom_domain_page accept_brackets example_creds []
     = (Inr True, submitted @ [Slept 3] @ replicate 10 (Slept 1))
   \<and> is_on_portal custom_domain_page accept_brackets [] = (Inr False, [])
   \<and> failed_ticks custom_domain_page accept_brackets 10 (submitted @ [Slept 3])
     = Some (submitted @ [Slept 3] @ replicate 10 (Slept 1))"
  by code_simp

subsection \<open>The MFA step\<close>

lemma fill_boxes_six:
  assumes "box_fill d DIGIT_BOXES 0 [c0] w0 = (Inr (), w1)"
      and "box_fill d DIGIT_BOXES 1 [c1] w1 = (Inr (), w2)"
      and "box_fill d DIGIT_BOXES 2 [c2] w2 = (Inr (), w3)"
      and "box_fill d DIGIT_BOXES 3 [c3] w3 = (Inr (), w4)"
      and "box_fill d DIGIT_BOXES 4 [c4] w4 = (Inr (), w5)"
      and "box_fill d DIGIT_BOXES 5 [c5] w5 = (Inr (), w6)"
  shows "fill_boxes d 0 [c0, c1, c2, c3, c4, c5] w0 = (Inr (), w6)"
  using assms by (simp add: eval_nat_numeral)

lemma digit_boxes_six:
  assumes "box_count d DIGIT_BOXES w = (Inr n, w0)" and "6 \<le> n"
      and "fill_boxes d 0 [c0, c1, c2, c3, c4, c5] w0 = (Inr (), w6)"
  shows "digit_boxes d [c0, c1, c2, c3, c4, c5] w = (True, w6)"
  using assms by (simp add: digit_boxes_def)

lemma digit_boxes_few:
  assumes "box_count d DIGIT_BOXES w = (Inr n, w0)" and "n < 6"
  shows "digit_boxes d otp w = (False, w0)"
  using assms by (simp add: digit_boxes_def)

text \<open>
  Claim C8. After the credentials were submitted, with a TOTP secret, when no field of
  the OTP cascade takes the code and the page has \<open>n\<close> digit boxes: with \<open>n < 6\<close>
  \<open>auto_login\<close> returns false; with \<open>6 \<le> n\<close>, a six-digit code and boxes that take
  their digits, the engine fills box 0 with the first digit, box 1 with the second, and so
  on to box 5, then clicks through the MFA-submit cascade, sleeps five seconds and goes on
  to the polling.
\<close>

theorem mfa_digit_box_fallback:
  assumes enter: "enter_credentials d cbh creds w = (Inr None, w1)"
      and secret: "totp_secret creds = Some secret" "secret \<noteq> []"
      and otp: "gen_totp d secret (maybe_switch_to_code_factor d (sleep d 3 w1)) = (Inr otp, w2)"
      and nosingle: "fill_first_match d OTP_SELECTORS otp w2 = (False, w3)"
      and cnt: "box_count d DIGIT_BOXES w3 = (Inr n, w4)"
  shows "(n < 6 \<longrightarrow> auto_login d cbh creds w = (Inr False, w4))
       \<and> (6 \<le> n \<and> otp = [c0, c1, c2, c3, c4, c5]
            \<and> box_fill d DIGIT_BOXES 0 [c0] w4 = (Inr (), b1)
            \<and> box_fill d DIGIT_BOXES 1 [c1] b1 = (Inr (), b2)
            \<and> box_fill d DIGIT_BOXES 2 [c2] b2 = (Inr (), b3)
            \<and> box_fill d DIGIT_BOXES 3 [c3] b3 = (Inr (), b4)
            \<and> box_fill d DIGIT_BOXES 4 [c4] b4 = (Inr (), b5)
            \<and> box_fill d DIGIT_BOXES 5 [c5] b5 = (Inr (), b6) \<longrightarrow>
          auto_login d cbh creds w =
            wait_for_auth d cbh 10 (sleep d 5 (snd (click_first_match d MFA_SUBMIT_SELECTORS b6))))"
proof (intro conjI impI; (elim conjE)?)
  have t: "str_truthy (totp_secret creds)" "str_of (totp_secret creds) = secret"
    using secret by (simp_all add: str_truthy_def str_of_def)
  {
    assume "n < 6"
    with cnt have "digit_boxes d otp w3 = (False, w4)" by (rule digit_boxes_few)
    with otp nosingle have "handle_mfa d secret (sleep d 3 w1) = (Inr False, w4)"
      by (simp add: handle_mfa_def)
    with enter t show "auto_login d cbh creds w = (Inr False, w4)"
      by (simp add: auto_login_def)
  }
  {
    assume n: "6 \<le> n" and o: "otp = [c0, c1, c2, c3, c4, c5]"
      and f: "box_fill d DIGIT_BOXES 0 [c0] w4 = (Inr (), b1)"
        "box_fill d DIGIT_BOXES 1 [c1] b1 = (Inr (), b2)"
        "box_fill d DIGIT_BOXES 2 [c2] b2 = (Inr (), b3)"
        "box_fill d DIGIT_BOXES 3 [c3] b3 = (Inr (), b4)"
        "box_fill d DIGIT_BOXES 4 [c4] b4 = (Inr (), b5)"
        "box_fill d DIGIT_BOXES 5 [c5] b5 = (Inr (), b6)"
    have "fill_boxes d 0 [c0, c1, c2, c3, c4, c5] w4 = (Inr (), b6)"
      using f by (rule fill_boxes_six)
    with cnt n have "digit_boxes d [c0, c1, c2, c3, c4, c5] w3 = (True, b6)"
      by (rule digit_boxes_six)
    with otp nosingle o have "handle_mfa d secret (sleep d 3 w1) =
        (Inr True, sleep d 5 (snd (click_first_match d MFA_SUBMIT_SELECTORS b6)))"
      by (simp add: handle_mfa_def)
    with enter t show "auto_login d cbh creds w =
        wait_for_auth d cbh 10 (sleep d 5 (snd (click_first_match d MFA_SUBMIT_SELECTORS b6)))"
      by (simp add: auto_login_def)
  }
qed

theorem mfa_digit_box_fallback_witness:
  "auto_login few_boxes_page accept_brackets example_totp_creds []
     = (Inr False, submitted @ [Slept 3])
   \<and> auto_login mfa_page accept_brackets example_totp_creds []
     = wait_for_auth mfa_page accept_brackets 10
         (sleep mfa_page 5
            (snd (click_first_match mfa_page MFA_SUBMIT_SELECTORS
                    (submitted @ [Slept 3] @ six_filled))))"
proof -
  let ?s = "submitted @ [Slept 3]"
  have e5: "enter_credentials few_boxes_page accept_brackets example_totp_creds [] = (Inr None, submitted)"
    by code_simp
  have e8: "enter_credentials mfa_page accept_brackets example_totp_creds [] = (Inr None, submitted)"
    by code_simp
  have sec: "totp_secret example_totp_creds = Some ''JBSWY3DPEHPK3PXP''" "''JBSWY3DPEHPK3PXP'' \<noteq> []"
    by code_simp+
  have o5: "gen_totp few_boxes_page ''JBSWY3DPEHPK3PXP''
        (maybe_switch_to_code_factor few_boxes_page (sleep few_boxes_page 3 submitted))
      = (Inr ''123456'', ?s)"
    by code_simp
  have o8: "gen_totp mfa_page ''JBSWY3DPEHPK3PXP''
        (maybe_switch_to_code_factor mfa_page (sleep mfa_page 3 submitted))
      = (Inr ''123456'', ?s)"
    by code_simp
  have n5: "fill_first_match few_boxes_page OTP_SELECTORS ''123456'' ?s = (False, ?s)"
    by code_simp
  have n8: "fill_first_match mfa_page OTP_SELECTORS ''123456'' ?s = (False, ?s)"
    by code_simp
  have c5: "box_count few_boxes_page DIGIT_BOXES ?s = (Inr 5, ?s)" by code_simp
  have c8: "box_count mfa_page DIGIT_BOXES ?s = (Inr 8, ?s)" by code_simp
  have f: "box_fill mfa_page DIGIT_BOXES 0 ''1'' ?s = (Inr (), ?s @ take 1 six_filled)
      \<and> box_fill mfa_page DIGIT_BOXES 1 ''2'' (?s @ take 1 six_filled) = (Inr (), ?s @ take 2 six_filled)
      \<and> box_fill mfa_page DIGIT_BOXES 2 ''3'' (?s @ take 2 six_filled) = (Inr (), ?s @ take 3 six_filled)
      \<and> box_fill mfa_page DIGIT_BOXES 3 ''4'' (?s @ take 3 six_filled) = (Inr (), ?s @ take 4 six_filled)
      \<and> box_fill mfa_page DIGIT_BOXES 4 ''5'' (?s @ take 4 six_filled) = (Inr (), ?s @ take 5 six_filled)
      \<and> box_fill mfa_page DIGIT_BOXES 5 ''6'' (?s @ take 5 six_filled) = (Inr (), ?s @ six_filled)"
    by code_simp
  have few: "auto_login few_boxes_page accept_brackets example_totp_creds [] = (Inr False, ?s)"
    using mfa_digit_box_fallback [OF e5 sec o5 n5 c5] by simp
  have six: "auto_login mfa_page accept_brackets example_totp_creds []
     = wait_for_auth mfa_page accept_brackets 10
         (sleep mfa_page 5
            (snd (click_first_match mfa_page MFA_SUBMIT_SELECTORS (?s @ six_filled))))"
    using mfa_digit_box_fallback [OF e8 sec o8 n8 c8, where ?c0.0 = "CHR ''1''" and ?c1.0 = "CHR ''2''"
        and ?c2.0 = "CHR ''3''" and ?c3.0 = "CHR ''4''" and ?c4.0 = "CHR ''5''" and ?c5.0 = "CHR ''6''"
        and ?b1.0 = "?s @ take 1 six_filled" and ?b2.0 = "?s @ take 2 six_filled"
        and ?b3.0 = "?s @ take 3 six_filled" and ?b4.0 = "?s @ take 4 six_filled"
        and ?b5.0 = "?s @ take 5 six_filled" and ?b6.0 = "?s @ six_filled"] f
    by simp
  from few six show ?thesis by simp
qed

text \<open>
  Claim C10. With more than six digit boxes and a six-digit code whose digits the boxes
  take, the fallback ends in the state reached by filling box 0 with the first digit, then
  box 1 with the second, and so on to box 5 with the sixth, and by nothing else: no box
  from index 6 on is filled. It reports the code as entered.
\<close>

theorem digit_boxes_more_than_six:
  assumes "box_count d DIGIT_BOXES w = (Inr n, w0)" and "6 < n"
      and "box_fill d DIGIT_BOXES 0 [c0] w0 = (Inr (), w1)"
      and "box_fill d DIGIT_BOXES 1 [c1] w1 = (Inr (), w2)"
      and "box_fill d DIGIT_BOXES 2 [c2] w2 = (Inr (), w3)"
      and "box_fill d DIGIT_BOXES 3 [c3] w3 = (Inr (), w4)"
      and "box_fill d DIGIT_BOXES 4 [c4] w4 = (Inr (), w5)"
      and "box_fill d DIGIT_BOXES 5 [c5] w5 = (Inr (), w6)"
  shows "digit_boxes d [c0, c1, c2, c3, c4, c5] w = (True, w6)"
proof -
  have "fill_boxes d 0 [c0, c1, c2, c3, c4, c5] w0 = (Inr (), w6)"
    using assms(3-8) by (rule fill_boxes_six)
  moreover have "6 \<le> n" using assms(2) by simp
  ultimately show ?thesis using assms(1) by (simp add: digit_boxes_six)
qed

theorem digit_boxes_more_than_six_witness:
  "digit_boxes mfa_page ''123456'' [] = (True, six_filled)"
proof -
  have c: "box_count mfa_page DIGIT_BOXES [] = (Inr 8, [])" by code_simp
  have n: "(6::nat) < 8" by simp
  have f0: "box_fill mfa_page DIGIT_BOXES 0 ''1'' [] = (Inr (), take 1 six_filled)" by code_simp
  have f1: "box_fill mfa_page DIGIT_BOXES 1 ''2'' (take 1 six_filled) = (Inr (), take 2 six_filled)"
    by code_simp
  have f2: "box_fill mfa_page DIGIT_BOXES 2 ''3'' (take 2 six_filled) = (Inr (), take 3 six_filled)"
    by code_simp
  have f3: "box_fill mfa_page DIGIT_BOXES 3 ''4'' (take 3 six_filled) = (Inr (), take 4 six_filled)"
    by code_simp
  have f4: "box_fill mfa_page DIGIT_BOXES 4 ''5'' (take 4 six_filled) = (Inr (), take 5 six_filled)"
    by code_simp
  have f5: "box_fill mfa_page DIGIT_BOXES 5 ''6'' (take 5 six_filled) = (Inr (), six_filled)"
    by code_simp
  from digit_boxes_more_than_six [OF c n f0 f1 f2 f3 f4 f5] show ?thesis .
qed

subsection \<open>Checking a session\<close>




subsection \<open>Logging in\<close>








end
